theory Spec2Isabelle
  imports Main "HOL-Library.Sublist"
begin

section \<open>Data model (types of the engine)\<close>

text \<open>
  The types of the repository: \<open>Color\<close> is the union \<open>'white' | 'black'\<close>, \<open>PieceType\<close>
  and \<open>GameStatus\<close> are the enums, \<open>Position\<close>, \<open>Piece\<close>, \<open>Move\<close> and \<open>GameState\<close> the
  interfaces. A \<open>number\<close> that holds a coordinate is an \<open>int\<close>. Field names that are
  reserved words of Isabelle or constants of HOL carry a prefix: \<open>id\<close> is \<open>pieceId\<close>,
  \<open>type\<close> is \<open>ptype\<close>, and the fields \<open>from\<close>, \<open>to\<close>, \<open>piece\<close>, \<open>captured\<close>
  and \<open>notation\<close> of a move are \<open>moveFrom\<close>, \<open>moveTo\<close>, \<open>movePiece\<close>, \<open>moveCaptured\<close>
  and \<open>moveNotation\<close>. An optional field is an \<open>option\<close>.
\<close>

datatype Color = white | black

datatype PieceType = PAWN | ROOK | KNIGHT | BISHOP | QUEEN | KING

record Position =
  row :: int
  col :: int

record Piece =
  pieceId :: string
  ptype :: PieceType
  color :: Color
  hasMoved :: bool

text \<open>
  \<open>Board = (Piece | null)[][]\<close>: an array of rows. \<open>None\<close> stands for \<open>null\<close> and for
  \<open>undefined\<close> alike, since the engine only ever tests a square for truthiness.
\<close>

type_synonym Board = "Piece option list list"

record Move =
  moveFrom :: Position
  moveTo :: Position
  movePiece :: Piece
  moveCaptured :: "Piece option"
  isCastling :: "bool option"
  isEnPassant :: "bool option"
  isPromotion :: "bool option"
  promotedTo :: "PieceType option"
  moveNotation :: string

datatype GameStatus = MENU | PLAYING | PAUSED | CHECKMATE | STALEMATE | DRAW

text \<open>\<open>winner: Color | 'draw' | null\<close>; \<open>null\<close> is \<open>None\<close>.\<close>

datatype Winner = Side Color | draw

record Timers =
  whiteTimer :: int
  blackTimer :: int

record GameState =
  board :: Board
  currentPlayer :: Color
  history :: "Move list"
  status :: GameStatus
  winner :: "Winner option"
  selectedSquare :: "Position option"
  lastMove :: "Move option"
  capturedWhite :: "Piece list"
  capturedBlack :: "Piece list"
  isFlipped :: bool
  timers :: Timers

section \<open>Errors, and reading and writing a board\<close>

text \<open>
  What stops a call of the engine without a result:
  \<^item> \<open>TypeError\<close>: JavaScript indexes \<open>undefined\<close>, which happens when \<open>board[r]\<close> is
    read or written through a row index \<open>r\<close> the outer array does not have;
  \<^item> \<open>Diverges\<close>: the \<open>while\<close> loop of a sliding piece never leaves its body (only
    possible for the direction \<open>[0, 0]\<close>, which no caller passes);
  \<^item> \<open>NonNullAssertion\<close>: a value the source marks non-null with \<open>!\<close> is \<open>null\<close>; the
    model stops there, where JavaScript would go on with an object that is no \<open>Piece\<close>.
\<close>

datatype error = TypeError | Diverges | NonNullAssertion

definition bindE :: "error + 'a \<Rightarrow> ('a \<Rightarrow> error + 'b) \<Rightarrow> error + 'b" where
  "bindE x f = (case x of Inl e \<Rightarrow> Inl e | Inr v \<Rightarrow> f v)"

text \<open>
  \<open>xs[i]\<close> on a JavaScript array: the element when \<open>i\<close> is an index of the array,
  \<open>undefined\<close> otherwise (here \<open>None\<close>).
\<close>

definition jsIndex :: "'a list \<Rightarrow> int \<Rightarrow> 'a option" where
  "jsIndex xs i = (if 0 \<le> i \<and> i < int (length xs) then Some (xs ! nat i) else None)"

text \<open>
  \<open>board[r][c]\<close>: a \<open>TypeError\<close> when \<open>board[r]\<close> is \<open>undefined\<close>; otherwise the
  square, with \<open>None\<close> for \<open>null\<close> and for a column the row does not have.
\<close>

definition cellAt :: "Board \<Rightarrow> int \<Rightarrow> int \<Rightarrow> error + Piece option" where
  "cellAt b r c =
     (case jsIndex b r of
        None \<Rightarrow> Inl TypeError
      | Some cells \<Rightarrow> Inr (case jsIndex cells c of None \<Rightarrow> None | Some v \<Rightarrow> v))"

text \<open>
  \<open>cells[c] = v\<close> on one row. An index of the row is overwritten; an index at or beyond
  the length extends the array, the gap reading as \<open>undefined\<close>; a negative \<open>c\<close> names a
  property, not an element, so the elements stay as they are (the engine reads a
  simulated board only at indices in \<open>[0,8)\<close>, where such a property is never seen).
\<close>

definition rowSet :: "Piece option list \<Rightarrow> int \<Rightarrow> Piece option \<Rightarrow> Piece option list" where
  "rowSet cells c v =
     (if c < 0 then cells
      else if c < int (length cells) then cells[nat c := v]
      else cells @ replicate (nat c - length cells) None @ [v])"

text \<open>\<open>board[r][c] = v\<close>: a \<open>TypeError\<close> when \<open>board[r]\<close> is \<open>undefined\<close>.\<close>

definition setCell :: "Board \<Rightarrow> int \<Rightarrow> int \<Rightarrow> Piece option \<Rightarrow> error + Board" where
  "setCell b r c v =
     (case jsIndex b r of
        None \<Rightarrow> Inl TypeError
      | Some cells \<Rightarrow> Inr (b[nat r := rowSet cells c v]))"

text \<open>
  \<open>board.map(r => [...r])\<close>: a new outer array of new rows with the same elements.
  Values of HOL are never shared, so the copy is the same value.
\<close>

definition copyBoard :: "Board \<Rightarrow> Board" where
  "copyBoard b = map (\<lambda>r. r) b"

text \<open>The squares in the order of the loops \<open>for r in 0..7, for c in 0..7\<close>.\<close>

definition squares :: "(int \<times> int) list" where
  "squares = List.product [0..7] [0..7]"

section \<open>\<open>utils/chessLogic.ts\<close>\<close>

subsection \<open>\<open>isWithinBoard\<close>, \<open>findKing\<close>\<close>

definition isWithinBoard :: "int \<Rightarrow> int \<Rightarrow> bool" where
  "isWithinBoard r c = (r \<ge> 0 \<and> r < 8 \<and> c \<ge> 0 \<and> c < 8)"

definition isKingOf :: "Color \<Rightarrow> Piece option \<Rightarrow> bool" where
  "isKingOf clr p = (case p of None \<Rightarrow> False | Some k \<Rightarrow> ptype k = KING \<and> color k = clr)"

fun findKingIn :: "Board \<Rightarrow> Color \<Rightarrow> (int \<times> int) list \<Rightarrow> error + Position" where
  "findKingIn b clr [] = Inr \<lparr>row = -1, col = -1\<rparr>"
| "findKingIn b clr ((r, c) # rest) =
     bindE (cellAt b r c) (\<lambda>p.
       if isKingOf clr p then Inr \<lparr>row = r, col = c\<rparr> else findKingIn b clr rest)"

definition findKing :: "Board \<Rightarrow> Color \<Rightarrow> error + Position" where
  "findKing b clr = findKingIn b clr squares"

subsection \<open>\<open>getPieceMoves\<close>\<close>

text \<open>
  The closures \<open>addIfEmpty\<close> and \<open>addIfEnemy\<close> push onto \<open>moves\<close> and return a flag; the
  model takes \<open>moves\<close> and returns it with the flag.
\<close>

definition addIfEmpty :: "Board \<Rightarrow> Position list \<Rightarrow> int \<Rightarrow> int \<Rightarrow> error + (Position list \<times> bool)" where
  "addIfEmpty b moves r c =
     (if isWithinBoard r c then
        bindE (cellAt b r c) (\<lambda>target.
          if target = None then Inr (moves @ [\<lparr>row = r, col = c\<rparr>], True)
          else Inr (moves, False))
      else Inr (moves, False))"

definition addIfEnemy :: "Board \<Rightarrow> Piece \<Rightarrow> Position list \<Rightarrow> int \<Rightarrow> int \<Rightarrow> error + (Position list \<times> bool)" where
  "addIfEnemy b piece moves r c =
     (if isWithinBoard r c then
        bindE (cellAt b r c) (\<lambda>target.
          case target of
            None \<Rightarrow> Inr (moves, False)
          | Some t \<Rightarrow>
              if color t \<noteq> color piece then Inr (moves @ [\<lparr>row = r, col = c\<rparr>], True)
              else Inr (moves, False))
      else Inr (moves, False))"

text \<open>The condition of the en passant rule on \<open>lastMove\<close>, for a pawn at \<open>(r, c)\<close>.\<close>

definition enPassantOffered :: "Move option \<Rightarrow> int \<Rightarrow> int \<Rightarrow> bool" where
  "enPassantOffered lm r c =
     (case lm of
        None \<Rightarrow> False
      | Some l \<Rightarrow>
          ptype (movePiece l) = PAWN \<and> \<bar>row (moveFrom l) - row (moveTo l)\<bar> = 2 \<and>
          row (moveTo l) = r \<and> \<bar>col (moveTo l) - c\<bar> = 1)"

definition pawnMoves :: "Board \<Rightarrow> Piece \<Rightarrow> int \<Rightarrow> int \<Rightarrow> Move option \<Rightarrow> error + Position list" where
  "pawnMoves b piece r c lm =
     (let dir = (if color piece = white then -1 else 1) in
      bindE (addIfEmpty b [] (r + dir) c) (\<lambda>(m1, ok).
      bindE (if ok \<and> \<not> hasMoved piece then addIfEmpty b m1 (r + 2 * dir) c
             else Inr (m1, False)) (\<lambda>(m2, _).
      bindE (addIfEnemy b piece m2 (r + dir) (c - 1)) (\<lambda>(m3, _).
      bindE (addIfEnemy b piece m3 (r + dir) (c + 1)) (\<lambda>(m4, _).
        Inr (case lm of
               None \<Rightarrow> m4
             | Some l \<Rightarrow>
                 if enPassantOffered (Some l) r c
                 then m4 @ [\<lparr>row = r + dir, col = col (moveTo l)\<rparr>]
                 else m4))))))"

text \<open>
  The body shared by the knight's \<open>forEach\<close> and the king's double loop: the square
  \<open>(r + dr, c + dc)\<close> is pushed when it is on the board and not held by a friend.
\<close>

definition stepTo :: "Board \<Rightarrow> Piece \<Rightarrow> int \<Rightarrow> int \<Rightarrow> Position list \<Rightarrow> int \<times> int \<Rightarrow> error + Position list" where
  "stepTo b piece r c moves d =
     (let nr = r + fst d; nc = c + snd d in
      if isWithinBoard nr nc then
        bindE (cellAt b nr nc) (\<lambda>target.
          case target of
            None \<Rightarrow> Inr (moves @ [\<lparr>row = nr, col = nc\<rparr>])
          | Some t \<Rightarrow>
              if color t \<noteq> color piece then Inr (moves @ [\<lparr>row = nr, col = nc\<rparr>])
              else Inr moves)
      else Inr moves)"

text \<open>A loop over a list whose body may stop the call: the first error ends it.\<close>

fun forEachE :: "('s \<Rightarrow> 'a \<Rightarrow> error + 's) \<Rightarrow> 's \<Rightarrow> 'a list \<Rightarrow> error + 's" where
  "forEachE f s [] = Inr s"
| "forEachE f s (x # xs) = bindE (f s x) (\<lambda>s'. forEachE f s' xs)"

definition kMoves :: "(int \<times> int) list" where
  "kMoves = [(-2,-1),(-2,1),(-1,-2),(-1,2),(1,-2),(1,2),(2,-1),(2,1)]"

definition directions :: "PieceType \<Rightarrow> (int \<times> int) list" where
  "directions t =
     (if t = BISHOP then [(-1,-1),(-1,1),(1,-1),(1,1)]
      else if t = ROOK then [(-1,0),(1,0),(0,-1),(0,1)]
      else [(-1,-1),(-1,1),(1,-1),(1,1),(-1,0),(1,0),(0,-1),(0,1)])"

text \<open>
  The \<open>while (isWithinBoard(nr, nc))\<close> loop of one direction. With \<open>dr = dc = 0\<close> on an
  empty square of the board the loop of the source never ends: that is \<open>Diverges\<close>.
\<close>

function ray :: "Board \<Rightarrow> Piece \<Rightarrow> int \<Rightarrow> int \<Rightarrow> int \<Rightarrow> int \<Rightarrow> Position list \<Rightarrow> error + Position list" where
  "ray b piece dr dc nr nc moves =
     (if isWithinBoard nr nc then
        (case cellAt b nr nc of
           Inl e \<Rightarrow> Inl e
         | Inr None \<Rightarrow>
             if dr = 0 \<and> dc = 0 then Inl Diverges
             else ray b piece dr dc (nr + dr) (nc + dc) (moves @ [\<lparr>row = nr, col = nc\<rparr>])
         | Inr (Some t) \<Rightarrow>
             Inr (if color t \<noteq> color piece then moves @ [\<lparr>row = nr, col = nc\<rparr>] else moves))
      else Inr moves)"
  by pat_completeness auto
termination
  by (relation "measure (\<lambda>(b, piece, dr, dc, nr, nc, moves).
        if dr > 0 then nat (8 - nr) else if dr < 0 then nat (nr + 1)
        else if dc > 0 then nat (8 - nc) else nat (nc + 1))")
     (auto simp: isWithinBoard_def)

definition slideMoves :: "Board \<Rightarrow> Piece \<Rightarrow> int \<Rightarrow> int \<Rightarrow> error + Position list" where
  "slideMoves b piece r c =
     forEachE (\<lambda>moves d. ray b piece (fst d) (snd d) (r + fst d) (c + snd d) moves)
       [] (directions (ptype piece))"

text \<open>The king's loops \<open>for dr in -1..1, for dc in -1..1\<close>, without \<open>(0, 0)\<close>.\<close>

definition kingSteps :: "(int \<times> int) list" where
  "kingSteps = filter (\<lambda>d. \<not> (fst d = 0 \<and> snd d = 0)) (List.product [-1..1] [-1..1])"

definition isUnmovedRook :: "Piece option \<Rightarrow> bool" where
  "isUnmovedRook p = (case p of None \<Rightarrow> False | Some k \<Rightarrow> ptype k = ROOK \<and> \<not> hasMoved k)"

text \<open>
  The castling block of the king. Every read is of the row \<open>board[row]\<close>, which exists
  once \<open>board[pos.row][pos.col]\<close> has been read; \<open>&&\<close> reads the squares from left to right.
\<close>

definition castlingMoves :: "Board \<Rightarrow> Piece \<Rightarrow> int \<Rightarrow> bool \<Rightarrow> Position list \<Rightarrow> error + Position list" where
  "castlingMoves b piece r ignoreCheck moves =
     (if \<not> hasMoved piece \<and> \<not> ignoreCheck then
        bindE (cellAt b r 7) (\<lambda>rookK.
        bindE (cellAt b r 5) (\<lambda>f.
        bindE (cellAt b r 6) (\<lambda>g.
        bindE (cellAt b r 0) (\<lambda>rookQ.
        bindE (cellAt b r 1) (\<lambda>b1.
        bindE (cellAt b r 2) (\<lambda>c1.
        bindE (cellAt b r 3) (\<lambda>d1.
          let mk = (if isUnmovedRook rookK \<and> f = None \<and> g = None
                    then moves @ [\<lparr>row = r, col = 6\<rparr>] else moves)
          in Inr (if isUnmovedRook rookQ \<and> b1 = None \<and> c1 = None \<and> d1 = None
                  then mk @ [\<lparr>row = r, col = 2\<rparr>] else mk))))))))
      else Inr moves)"

definition kingMoves :: "Board \<Rightarrow> Piece \<Rightarrow> int \<Rightarrow> int \<Rightarrow> bool \<Rightarrow> error + Position list" where
  "kingMoves b piece r c ignoreCheck =
     bindE (forEachE (stepTo b piece r c) [] kingSteps) (\<lambda>moves.
       castlingMoves b piece r ignoreCheck moves)"

definition getPieceMoves :: "Board \<Rightarrow> Position \<Rightarrow> Move option \<Rightarrow> bool \<Rightarrow> error + Position list" where
  "getPieceMoves b pos lm ignoreCheck =
     bindE (cellAt b (row pos) (col pos)) (\<lambda>p.
       case p of
         None \<Rightarrow> Inr []
       | Some piece \<Rightarrow>
           (case ptype piece of
              PAWN \<Rightarrow> pawnMoves b piece (row pos) (col pos) lm
            | KNIGHT \<Rightarrow> forEachE (stepTo b piece (row pos) (col pos)) [] kMoves
            | KING \<Rightarrow> kingMoves b piece (row pos) (col pos) ignoreCheck
            | _ \<Rightarrow> slideMoves b piece (row pos) (col pos)))"

subsection \<open>\<open>isSquareAttacked\<close>, \<open>isKingInCheck\<close>\<close>

fun attackedFrom :: "Board \<Rightarrow> Position \<Rightarrow> Color \<Rightarrow> (int \<times> int) list \<Rightarrow> error + bool" where
  "attackedFrom b pos attackerColor [] = Inr False"
| "attackedFrom b pos attackerColor ((r, c) # rest) =
     bindE (cellAt b r c) (\<lambda>p.
       case p of
         None \<Rightarrow> attackedFrom b pos attackerColor rest
       | Some pc \<Rightarrow>
           if color pc = attackerColor then
             bindE (getPieceMoves b \<lparr>row = r, col = c\<rparr> None True) (\<lambda>moves.
               if \<exists>m \<in> set moves. row m = row pos \<and> col m = col pos then Inr True
               else attackedFrom b pos attackerColor rest)
           else attackedFrom b pos attackerColor rest)"

definition isSquareAttacked :: "Board \<Rightarrow> Position \<Rightarrow> Color \<Rightarrow> error + bool" where
  "isSquareAttacked b pos attackerColor = attackedFrom b pos attackerColor squares"

definition isKingInCheck :: "Board \<Rightarrow> Color \<Rightarrow> error + bool" where
  "isKingInCheck b clr =
     bindE (findKing b clr) (\<lambda>kingPos.
       if row kingPos = -1 then Inr False
       else isSquareAttacked b kingPos (if clr = white then black else white))"

subsection \<open>\<open>getLegalMoves\<close>\<close>

text \<open>
  The first board of the filter's callback: the copy with the piece (marked as moved) on
  \<open>m\<close>, the source square cleared and, for a pawn that moves to another column onto an
  empty square, the square \<open>(m.row + dir, m.col)\<close> cleared, \<open>dir\<close> being 1 for white
  and -1 for black. The writes are in the order of the source.
\<close>

definition simulateMove :: "Board \<Rightarrow> Position \<Rightarrow> Piece \<Rightarrow> Position \<Rightarrow> error + Board" where
  "simulateMove b pos piece m =
     (let simulatedBoard = copyBoard b in
      bindE (cellAt simulatedBoard (row m) (col m)) (\<lambda>target.
      bindE (setCell simulatedBoard (row m) (col m) (Some (piece\<lparr>hasMoved := True\<rparr>))) (\<lambda>s1.
      bindE (setCell s1 (row pos) (col pos) None) (\<lambda>s2.
        if ptype piece = PAWN \<and> col m \<noteq> col pos \<and> target = None then
          (let dir = (if color piece = white then 1 else -1) in
           setCell s2 (row m + dir) (col m) None)
        else Inr s2))))"

text \<open>
  The second board, of a king's move by two columns: the copy with the king on the
  square between \<open>pos\<close> and \<open>m\<close> and the source square cleared.
\<close>

definition stepBoard :: "Board \<Rightarrow> Position \<Rightarrow> Piece \<Rightarrow> Position \<Rightarrow> error + Board" where
  "stepBoard b pos piece m =
     (let stepCol = (if col m > col pos then col pos + 1 else col pos - 1) in
      bindE (setCell (copyBoard b) (row pos) stepCol (Some piece)) (\<lambda>s1.
        setCell s1 (row pos) (col pos) None))"

text \<open>The callback of \<open>rawMoves.filter\<close>: whether the destination \<open>m\<close> is kept.\<close>

definition keepMove :: "Board \<Rightarrow> Position \<Rightarrow> Piece \<Rightarrow> Position \<Rightarrow> error + bool" where
  "keepMove b pos piece m =
     bindE (simulateMove b pos piece m) (\<lambda>simulatedBoard.
     bindE (isKingInCheck simulatedBoard (color piece)) (\<lambda>inCheck.
       if inCheck then Inr False
       else if ptype piece = KING \<and> \<bar>col m - col pos\<bar> = 2 then
         bindE (isKingInCheck b (color piece)) (\<lambda>now.
           if now then Inr False
           else
             bindE (stepBoard b pos piece m) (\<lambda>sb.
             bindE (isKingInCheck sb (color piece)) (\<lambda>through.
               if through then Inr False else Inr True)))
       else Inr True))"

text \<open>\<open>Array.filter\<close> with a callback that may stop the call.\<close>

fun filterE :: "('a \<Rightarrow> error + bool) \<Rightarrow> 'a list \<Rightarrow> error + 'a list" where
  "filterE f [] = Inr []"
| "filterE f (x # xs) =
     bindE (f x) (\<lambda>keep.
     bindE (filterE f xs) (\<lambda>rest. Inr (if keep then x # rest else rest)))"

definition getLegalMoves :: "Board \<Rightarrow> Position \<Rightarrow> Move option \<Rightarrow> error + Position list" where
  "getLegalMoves b pos lm =
     bindE (cellAt b (row pos) (col pos)) (\<lambda>p.
       case p of
         None \<Rightarrow> Inr []
       | Some piece \<Rightarrow>
           bindE (getPieceMoves b pos lm False) (\<lambda>rawMoves.
             filterE (keepMove b pos piece) rawMoves))"

subsection \<open>\<open>getAllLegalMoves\<close>\<close>

definition candidate :: "int \<Rightarrow> int \<Rightarrow> Piece \<Rightarrow> Position \<Rightarrow> Move" where
  "candidate r c p dest =
     \<lparr>moveFrom = \<lparr>row = r, col = c\<rparr>, moveTo = dest, movePiece = p, moveCaptured = None,
      isCastling = None, isEnPassant = None, isPromotion = None, promotedTo = None,
      moveNotation = ''''\<rparr>"

fun allLegalFrom :: "Board \<Rightarrow> Color \<Rightarrow> Move option \<Rightarrow> Move list \<Rightarrow> (int \<times> int) list \<Rightarrow> error + Move list" where
  "allLegalFrom b clr lm allMoves [] = Inr allMoves"
| "allLegalFrom b clr lm allMoves ((r, c) # rest) =
     bindE (cellAt b r c) (\<lambda>p.
       case p of
         None \<Rightarrow> allLegalFrom b clr lm allMoves rest
       | Some pc \<Rightarrow>
           if color pc = clr then
             bindE (getLegalMoves b \<lparr>row = r, col = c\<rparr> lm) (\<lambda>legalPos.
               allLegalFrom b clr lm (allMoves @ map (candidate r c pc) legalPos) rest)
           else allLegalFrom b clr lm allMoves rest)"

definition getAllLegalMoves :: "Board \<Rightarrow> Color \<Rightarrow> Move option \<Rightarrow> error + Move list" where
  "getAllLegalMoves b clr lm = allLegalFrom b clr lm [] squares"

subsection \<open>\<open>getAlgebraicNotation\<close>\<close>

text \<open>
  String concatenation of JavaScript where an operand may be \<open>undefined\<close> (an array read
  outside its indices): a string and \<open>undefined\<close> give the text \<open>undefined\<close> at that
  place, and \<open>undefined + undefined\<close> is the number \<open>NaN\<close>, appended as \<open>NaN\<close>.
\<close>

definition jsStr :: "string option \<Rightarrow> string" where
  "jsStr x = (case x of None \<Rightarrow> ''undefined'' | Some t \<Rightarrow> t)"

definition jsPlus :: "string option \<Rightarrow> string option \<Rightarrow> string" where
  "jsPlus x y = (if x = None \<and> y = None then ''NaN'' else jsStr x @ jsStr y)"

definition pieceLetter :: "PieceType \<Rightarrow> string" where
  "pieceLetter t =
     (case t of PAWN \<Rightarrow> '''' | KNIGHT \<Rightarrow> ''N'' | BISHOP \<Rightarrow> ''B'' | ROOK \<Rightarrow> ''R''
      | QUEEN \<Rightarrow> ''Q'' | KING \<Rightarrow> ''K'')"

definition getAlgebraicNotation :: "Position \<Rightarrow> Position \<Rightarrow> Piece \<Rightarrow> bool \<Rightarrow> bool \<Rightarrow> bool \<Rightarrow> string" where
  "getAlgebraicNotation fromPos toPos piece captured check mate =
     (let cols = [''a'', ''b'', ''c'', ''d'', ''e'', ''f'', ''g'', ''h''];
          rows = [''8'', ''7'', ''6'', ''5'', ''4'', ''3'', ''2'', ''1'']
      in
      if ptype piece = KING \<and> \<bar>col fromPos - col toPos\<bar> = 2 then
        (if col toPos > col fromPos then ''O-O'' else ''O-O-O'')
      else
        (let n0 = pieceLetter (ptype piece);
             n1 = (if captured then
                     (if ptype piece = PAWN then n0 @ jsStr (jsIndex cols (col fromPos)) else n0)
                       @ ''x''
                   else n0);
             n2 = n1 @ jsPlus (jsIndex cols (col toPos)) (jsIndex rows (row toPos))
         in if mate then n2 @ ''#'' else if check then n2 @ ''+'' else n2))"

section \<open>\<open>App.tsx\<close>: \<open>executeMove\<close>\<close>

text \<open>
  The updater that \<open>executeMove\<close> hands to \<open>setGameState\<close>, as a function from the
  previous state to the next one. The record given to \<open>getAllLegalMoves\<close> as the last
  move is \<open>probeMove\<close>; \<open>promotionPending\<close> is another piece of state and is left out.
\<close>

definition probeMove :: "Position \<Rightarrow> Position \<Rightarrow> Piece \<Rightarrow> Piece option \<Rightarrow> Move" where
  "probeMove fromPos toPos piece finalCaptured =
     \<lparr>moveFrom = fromPos, moveTo = toPos, movePiece = piece, moveCaptured = finalCaptured,
      isCastling = None, isEnPassant = None, isPromotion = None, promotedTo = None,
      moveNotation = ''''\<rparr>"

text \<open>The castling block: the rook goes from column 7 to 5, or from column 0 to 3.\<close>

definition moveRook :: "Board \<Rightarrow> Position \<Rightarrow> Position \<Rightarrow> error + Board" where
  "moveRook newBoard fromPos toPos =
     (let rookCol = (if col toPos > col fromPos then 7 else 0);
          rookNewCol = (if col toPos > col fromPos then 5 else 3)
      in
      bindE (cellAt newBoard (row fromPos) rookCol) (\<lambda>r.
        case r of
          None \<Rightarrow> Inl NonNullAssertion
        | Some rook \<Rightarrow>
            bindE (setCell newBoard (row fromPos) rookCol None) (\<lambda>b1.
              setCell b1 (row fromPos) rookNewCol (Some (rook\<lparr>hasMoved := True\<rparr>)))))"

text \<open>The board after the move, with the piece moved and the piece taken.\<close>

definition applyMove :: "Board \<Rightarrow> Position \<Rightarrow> Position \<Rightarrow> PieceType option \<Rightarrow> error + (Board \<times> Piece \<times> Piece option \<times> bool \<times> bool)" where
  "applyMove b fromPos toPos promo =
     (let newBoard = copyBoard b in
      bindE (cellAt newBoard (row fromPos) (col fromPos)) (\<lambda>p0.
        case p0 of
          None \<Rightarrow> Inl NonNullAssertion
        | Some p \<Rightarrow>
            bindE (cellAt newBoard (row toPos) (col toPos)) (\<lambda>captured.
              let moved = p\<lparr>hasMoved := True\<rparr>;
                  piece = (case promo of None \<Rightarrow> moved | Some t \<Rightarrow> moved\<lparr>ptype := t\<rparr>);
                  castling = (ptype piece = KING \<and> \<bar>col fromPos - col toPos\<bar> = 2);
                  enPassant = (ptype piece = PAWN \<and> col fromPos \<noteq> col toPos \<and> captured = None)
              in
              bindE (if castling then moveRook newBoard fromPos toPos else Inr newBoard) (\<lambda>b1.
              bindE (if enPassant then
                       (let dir = (if color piece = white then 1 else -1) in
                        bindE (cellAt b1 (row toPos + dir) (col toPos)) (\<lambda>taken.
                        bindE (setCell b1 (row toPos + dir) (col toPos) None) (\<lambda>b2.
                          Inr (b2, taken))))
                     else Inr (b1, captured)) (\<lambda>(b2, finalCaptured).
              bindE (setCell b2 (row toPos) (col toPos) (Some piece)) (\<lambda>b3.
              bindE (setCell b3 (row fromPos) (col fromPos) None) (\<lambda>b4.
                Inr (b4, piece, finalCaptured, castling, enPassant))))))))"

definition executeMove :: "GameState \<Rightarrow> Position \<Rightarrow> Position \<Rightarrow> PieceType option \<Rightarrow> error + GameState" where
  "executeMove prev fromPos toPos promo =
     bindE (applyMove (board prev) fromPos toPos promo)
       (\<lambda>(newBoard, piece, finalCaptured, castling, enPassant).
         let nextPlayer = (if currentPlayer prev = white then black else white) in
         bindE (isKingInCheck newBoard nextPlayer) (\<lambda>check.
         bindE (getAllLegalMoves newBoard nextPlayer
                  (Some (probeMove fromPos toPos piece finalCaptured))) (\<lambda>allLegalMoves.
           let mate = (check \<and> length allLegalMoves = 0);
               stalemate = (\<not> check \<and> length allLegalMoves = 0);
               move = \<lparr>moveFrom = fromPos, moveTo = toPos, movePiece = piece,
                       moveCaptured = finalCaptured, isCastling = Some castling,
                       isEnPassant = Some enPassant, isPromotion = Some (promo \<noteq> None),
                       promotedTo = promo,
                       moveNotation = getAlgebraicNotation fromPos toPos piece
                                        (finalCaptured \<noteq> None) check mate\<rparr>
           in
           Inr (prev\<lparr>board := newBoard,
                     currentPlayer := nextPlayer,
                     history := history prev @ [move],
                     lastMove := Some move,
                     selectedSquare := None,
                     status := (if mate then CHECKMATE else if stalemate then STALEMATE
                                else PLAYING),
                     winner := (if mate then Some (Side (currentPlayer prev))
                                else if stalemate then Some draw else None),
                     capturedWhite := (case finalCaptured of
                                         None \<Rightarrow> capturedWhite prev
                                       | Some t \<Rightarrow> if color t = white
                                                   then capturedWhite prev @ [t]
                                                   else capturedWhite prev),
                     capturedBlack := (case finalCaptured of
                                         None \<Rightarrow> capturedBlack prev
                                       | Some t \<Rightarrow> if color t = black
                                                   then capturedBlack prev @ [t]
                                                   else capturedBlack prev)\<rparr>))))"

section \<open>Predicates of the properties\<close>

text \<open>The board of the data model: eight rows of eight squares.\<close>

definition wfBoard :: "Board \<Rightarrow> bool" where
  "wfBoard b = (length b = 8 \<and> list_all (\<lambda>cells. length cells = 8) b)"

text \<open>No square of the board holds a king of the colour.\<close>

definition noKing :: "Board \<Rightarrow> Color \<Rightarrow> bool" where
  "noKing b clr = list_all (\<lambda>cells. list_all (\<lambda>cell. \<not> isKingOf clr cell) cells) b"

text \<open>A square that is on the board and empty; one that is on the board and holds an enemy.\<close>

definition emptyAt :: "Board \<Rightarrow> int \<Rightarrow> int \<Rightarrow> bool" where
  "emptyAt b r c = (isWithinBoard r c \<and> cellAt b r c = Inr None)"

definition enemyAt :: "Board \<Rightarrow> Piece \<Rightarrow> int \<Rightarrow> int \<Rightarrow> bool" where
  "enemyAt b piece r c =
     (isWithinBoard r c \<and>
      (case cellAt b r c of Inr (Some t) \<Rightarrow> color t \<noteq> color piece | _ \<Rightarrow> False))"

text \<open>
  All squares of row \<open>r\<close> strictly between the columns \<open>c1\<close> and \<open>c2\<close> are empty; the
  square \<open>(r, c)\<close> holds a rook whose \<open>hasMoved\<close> flag is false.
\<close>

definition emptyBetween :: "Board \<Rightarrow> int \<Rightarrow> int \<Rightarrow> int \<Rightarrow> bool" where
  "emptyBetween b r c1 c2 = list_all (\<lambda>k. cellAt b r k = Inr None) [c1 + 1..c2 - 1]"

definition unmovedRookAt :: "Board \<Rightarrow> int \<Rightarrow> int \<Rightarrow> bool" where
  "unmovedRookAt b r c =
     (case cellAt b r c of Inr (Some k) \<Rightarrow> ptype k = ROOK \<and> \<not> hasMoved k | _ \<Rightarrow> False)"

text \<open>
  The notation as the specification words it: file letters \<open>a\<close> to \<open>h\<close> for the columns
  0 to 7, rank digits \<open>8\<close> down to \<open>1\<close> for the rows 0 to 7, the letter of the
  archetype, and the string put together from them.
\<close>

definition fileLetter :: "int \<Rightarrow> char" where
  "fileLetter c = char_of (97 + c)"

definition rankDigit :: "int \<Rightarrow> char" where
  "rankDigit r = char_of (56 - r)"

fun archetypeLetter :: "PieceType \<Rightarrow> string" where
  "archetypeLetter PAWN = []"
| "archetypeLetter KNIGHT = ''N''"
| "archetypeLetter BISHOP = ''B''"
| "archetypeLetter ROOK = ''R''"
| "archetypeLetter QUEEN = ''Q''"
| "archetypeLetter KING = ''K''"

definition notate :: "Position \<Rightarrow> Position \<Rightarrow> Piece \<Rightarrow> bool \<Rightarrow> bool \<Rightarrow> bool \<Rightarrow> string" where
  "notate fromPos toPos piece wasCapture isCheck isMate =
     (if ptype piece = KING \<and> col toPos = col fromPos + 2 then ''O-O''
      else if ptype piece = KING \<and> col toPos = col fromPos - 2 then ''O-O-O''
      else archetypeLetter (ptype piece)
           @ (if wasCapture
              then (if ptype piece = PAWN then [fileLetter (col fromPos)] else []) @ ''x''
              else [])
           @ [fileLetter (col toPos), rankDigit (row toPos)]
           @ (if isMate then ''#'' else if isCheck then ''+'' else []))"

text \<open>A position on the board.\<close>

definition onBoard :: "Position \<Rightarrow> bool" where
  "onBoard m = isWithinBoard (row m) (col m)"

section \<open>Example positions\<close>

definition pc :: "PieceType \<Rightarrow> Color \<Rightarrow> bool \<Rightarrow> Piece option" where
  "pc t clr moved = Some \<lparr>pieceId = ''x'', ptype = t, color = clr, hasMoved = moved\<rparr>"

definition emptyRow :: "Piece option list" where
  "emptyRow = replicate 8 None"

text \<open>A white king on e1 that has moved, in check from a black rook on e8.\<close>

definition kingInCheckBoard :: Board where
  "kingInCheckBoard =
     [[None, None, None, None, pc ROOK black True, None, None, None],
      emptyRow, emptyRow, emptyRow, emptyRow, emptyRow, emptyRow,
      [None, None, None, None, pc KING white True, None, None, None]]"

text \<open>
  White king on e1 and white rook on h1, both unmoved, f1 and g1 empty; a black rook on
  f8 attacks f1, the square the king would cross.
\<close>

definition castleThroughCheckBoard :: Board where
  "castleThroughCheckBoard =
     [[None, None, None, None, None, pc ROOK black True, None, None],
      emptyRow, emptyRow, emptyRow, emptyRow, emptyRow, emptyRow,
      [None, None, None, None, pc KING white False, None, None, pc ROOK white False]]"

text \<open>An unmoved white pawn on e2 with e3 and e4 empty.\<close>

definition pawnStartBoard :: Board where
  "pawnStartBoard =
     [emptyRow, emptyRow, emptyRow, emptyRow, emptyRow, emptyRow,
      [None, None, None, None, pc PAWN white False, None, None, None],
      [None, None, None, None, pc KING white False, None, None, None]]"

text \<open>
  A white pawn on d5, a black pawn on e5 and a black knight on e6; the last move is
  recorded as the black pawn's double step e7-e5.
\<close>

definition enPassantBoard :: Board where
  "enPassantBoard =
     [emptyRow, emptyRow,
      [None, None, None, None, pc KNIGHT black True, None, None, None],
      [None, None, None, pc PAWN white True, pc PAWN black True, None, None, None],
      emptyRow, emptyRow, emptyRow, emptyRow]"

definition enPassantLast :: Move where
  "enPassantLast =
     \<lparr>moveFrom = \<lparr>row = 1, col = 4\<rparr>, moveTo = \<lparr>row = 3, col = 4\<rparr>,
      movePiece = \<lparr>pieceId = ''x'', ptype = PAWN, color = black, hasMoved = True\<rparr>,
      moveCaptured = None, isCastling = Some False, isEnPassant = Some False,
      isPromotion = Some False, promotedTo = None, moveNotation = ''e5''\<rparr>"

text \<open>
  An unmoved white king on d1, a white bishop on e1 and an unmoved white rook on h1.
\<close>

definition kingOffFileBoard :: Board where
  "kingOffFileBoard =
     [emptyRow, emptyRow, emptyRow, emptyRow, emptyRow, emptyRow, emptyRow,
      [None, None, None, pc KING white False, pc BISHOP white True, None, None,
       pc ROOK white False]]"

text \<open>
  A white pawn on d8 with a black pawn beside it on e8; the last move is recorded as
  that pawn's move from e6 to e8, two rows.
\<close>

definition lastRankBoard :: Board where
  "lastRankBoard =
     [[None, None, None, pc PAWN white True, pc PAWN black True, None, None, None],
      emptyRow, emptyRow, emptyRow, emptyRow, emptyRow, emptyRow, emptyRow]"

definition lastRankLast :: Move where
  "lastRankLast =
     \<lparr>moveFrom = \<lparr>row = 2, col = 4\<rparr>, moveTo = \<lparr>row = 0, col = 4\<rparr>,
      movePiece = \<lparr>pieceId = ''x'', ptype = PAWN, color = black, hasMoved = True\<rparr>,
      moveCaptured = None, isCastling = Some False, isEnPassant = Some False,
      isPromotion = Some False, promotedTo = None, moveNotation = ''e8''\<rparr>"

text \<open>
  Black king on a8, white king on c6, white queen on h7, white to move: the queen's
  move to b7 mates.
\<close>

definition mateBoard :: Board where
  "mateBoard =
     [[pc KING black True, None, None, None, None, None, None, None],
      [None, None, None, None, None, None, None, pc QUEEN white True],
      [None, None, pc KING white True, None, None, None, None, None],
      emptyRow, emptyRow, emptyRow, emptyRow, emptyRow]"

definition mateState :: GameState where
  "mateState =
     \<lparr>board = mateBoard, currentPlayer = white, history = [], status = PLAYING,
      winner = None, selectedSquare = Some \<lparr>row = 1, col = 7\<rparr>, lastMove = None,
      capturedWhite = [], capturedBlack = [], isFlipped = False,
      timers = \<lparr>whiteTimer = 600, blackTimer = 600\<rparr>\<rparr>"

section \<open>Auxiliary facts\<close>

lemma bindE_Inr: "bindE x f = Inr y \<longleftrightarrow> (\<exists>v. x = Inr v \<and> f v = Inr y)"
  by (cases x) (simp_all add: bindE_def)

lemma filterE_Inr:
  "filterE f xs = Inr ys \<Longrightarrow>
     ys = filter (\<lambda>x. f x = Inr True) xs \<and> (\<forall>x \<in> set xs. f x = Inr True \<or> f x = Inr False)"
proof (induction xs arbitrary: ys)
  case Nil
  then show ?case by simp
next
  case (Cons x xs)
  from Cons.prems obtain keep rest where
    k: "f x = Inr keep" and r: "filterE f xs = Inr rest"
    and y: "ys = (if keep then x # rest else rest)"
    by (auto simp: bindE_Inr)
  from Cons.IH [OF r] k y show ?case by (cases keep) auto
qed

lemma getLegalMoves_Some:
  assumes "getLegalMoves b p lm = Inr ms" and "cellAt b (row p) (col p) = Inr (Some piece)"
  shows "\<exists>raw. getPieceMoves b p lm False = Inr raw \<and> filterE (keepMove b p piece) raw = Inr ms"
  using assms by (simp add: getLegalMoves_def bindE_Inr)

lemma keepMove_True:
  assumes "keepMove b p piece m = Inr True"
  shows "\<exists>sim. simulateMove b p piece m = Inr sim \<and> isKingInCheck sim (color piece) = Inr False \<and>
           (ptype piece = KING \<and> \<bar>col m - col p\<bar> = 2 \<longrightarrow>
              isKingInCheck b (color piece) = Inr False \<and>
              (\<exists>sb. stepBoard b p piece m = Inr sb \<and> isKingInCheck sb (color piece) = Inr False))"
  using assms by (auto simp: keepMove_def bindE_Inr split: if_splits)

lemma addIfEmpty_Inr:
  "addIfEmpty b ms r c = Inr (ms', ok) \<Longrightarrow>
     ok = emptyAt b r c \<and> ms' = ms @ (if emptyAt b r c then [\<lparr>row = r, col = c\<rparr>] else [])"
  by (auto simp: addIfEmpty_def emptyAt_def bindE_Inr split: if_splits)

lemma addIfEnemy_Inr:
  "addIfEnemy b piece ms r c = Inr (ms', ok) \<Longrightarrow>
     ms' = ms @ (if enemyAt b piece r c then [\<lparr>row = r, col = c\<rparr>] else [])"
  by (auto simp: addIfEnemy_def enemyAt_def bindE_Inr split: if_splits option.splits)

text \<open>What a pawn is offered, piece by piece of the \<open>PAWN\<close> case, in the order pushed.\<close>

lemma pawnMoves_Inr:
  assumes "pawnMoves b piece r c lm = Inr ms"
  shows "ms =
      (if emptyAt b (r + (if color piece = white then -1 else 1)) c
       then [\<lparr>row = r + (if color piece = white then -1 else 1), col = c\<rparr>] else [])
    @ (if emptyAt b (r + (if color piece = white then -1 else 1)) c \<and> \<not> hasMoved piece
          \<and> emptyAt b (r + 2 * (if color piece = white then -1 else 1)) c
       then [\<lparr>row = r + 2 * (if color piece = white then -1 else 1), col = c\<rparr>] else [])
    @ (if enemyAt b piece (r + (if color piece = white then -1 else 1)) (c - 1)
       then [\<lparr>row = r + (if color piece = white then -1 else 1), col = c - 1\<rparr>] else [])
    @ (if enemyAt b piece (r + (if color piece = white then -1 else 1)) (c + 1)
       then [\<lparr>row = r + (if color piece = white then -1 else 1), col = c + 1\<rparr>] else [])
    @ (case lm of None \<Rightarrow> []
       | Some l \<Rightarrow> if enPassantOffered (Some l) r c
                   then [\<lparr>row = r + (if color piece = white then -1 else 1), col = col (moveTo l)\<rparr>]
                   else [])"
proof -
  define dir :: int where "dir = (if color piece = white then -1 else 1)"
  from assms obtain m1 ok m2 ok2 m3 ok3 m4 ok4 where
    a1: "addIfEmpty b [] (r + dir) c = Inr (m1, ok)" and
    a2: "(if ok \<and> \<not> hasMoved piece then addIfEmpty b m1 (r + 2 * dir) c else Inr (m1, False))
           = Inr (m2, ok2)" and
    a3: "addIfEnemy b piece m2 (r + dir) (c - 1) = Inr (m3, ok3)" and
    a4: "addIfEnemy b piece m3 (r + dir) (c + 1) = Inr (m4, ok4)" and
    a5: "ms = (case lm of None \<Rightarrow> m4
               | Some l \<Rightarrow> if enPassantOffered (Some l) r c
                           then m4 @ [\<lparr>row = r + dir, col = col (moveTo l)\<rparr>] else m4)"
    unfolding pawnMoves_def Let_def dir_def [symmetric]
    by (auto simp: bindE_Inr)
  from addIfEmpty_Inr [OF a1]
  have m1: "m1 = (if emptyAt b (r + dir) c then [\<lparr>row = r + dir, col = c\<rparr>] else [])"
    and ok: "ok = emptyAt b (r + dir) c" by simp_all
  have m2: "m2 = m1 @ (if emptyAt b (r + dir) c \<and> \<not> hasMoved piece \<and> emptyAt b (r + 2 * dir) c
                       then [\<lparr>row = r + 2 * dir, col = c\<rparr>] else [])"
  proof (cases "ok \<and> \<not> hasMoved piece")
    case True
    with a2 have "addIfEmpty b m1 (r + 2 * dir) c = Inr (m2, ok2)" by simp
    from addIfEmpty_Inr [OF this] True ok show ?thesis by simp
  next
    case False
    with a2 ok show ?thesis by auto
  qed
  from addIfEnemy_Inr [OF a3]
  have m3: "m3 = m2 @ (if enemyAt b piece (r + dir) (c - 1)
                       then [\<lparr>row = r + dir, col = c - 1\<rparr>] else [])" .
  from addIfEnemy_Inr [OF a4]
  have m4: "m4 = m3 @ (if enemyAt b piece (r + dir) (c + 1)
                       then [\<lparr>row = r + dir, col = c + 1\<rparr>] else [])" .
  have "ms = m4 @ (case lm of None \<Rightarrow> []
       | Some l \<Rightarrow> if enPassantOffered (Some l) r c
                   then [\<lparr>row = r + dir, col = col (moveTo l)\<rparr>] else [])"
    using a5 by (simp split: option.splits)
  then show ?thesis
    unfolding m4 m3 m2 m1 dir_def by simp
qed

lemma getPieceMoves_pawn:
  assumes "cellAt b (row p) (col p) = Inr (Some pawn)" and "ptype pawn = PAWN"
  shows "getPieceMoves b p lm ic = pawnMoves b pawn (row p) (col p) lm"
  using assms by (simp add: getPieceMoves_def bindE_def)

lemma jsIndex_Some_mem: "jsIndex xs i = Some v \<Longrightarrow> v \<in> set xs"
  by (auto simp: jsIndex_def split: if_splits)

lemma cellAt_rows:
  assumes "length b = 8" and "0 \<le> r" and "r < 8"
  shows "\<exists>v. cellAt b r c = Inr v \<and> (v = None \<or> (\<exists>cells \<in> set b. v \<in> set cells))"
proof -
  from assms have j: "jsIndex b r = Some (b ! nat r)" by (simp add: jsIndex_def)
  from assms have m: "b ! nat r \<in> set b" by simp
  show ?thesis
  proof (cases "jsIndex (b ! nat r) c")
    case None
    with j show ?thesis by (simp add: cellAt_def)
  next
    case (Some v)
    from jsIndex_Some_mem [OF Some] m j Some show ?thesis
      by (auto simp: cellAt_def)
  qed
qed

lemma noKing_cell:
  assumes "noKing b clr" and "cells \<in> set b" and "v \<in> set cells"
  shows "\<not> isKingOf clr v"
  using assms by (auto simp: noKing_def list_all_iff)

lemma findKingIn_noKing:
  assumes "length b = 8" and "noKing b clr"
  shows "(\<forall>s \<in> set sq. 0 \<le> fst s \<and> fst s < 8) \<Longrightarrow>
         findKingIn b clr sq = Inr \<lparr>row = -1, col = -1\<rparr>"
proof (induction sq)
  case Nil
  then show ?case by simp
next
  case (Cons s sq)
  obtain r c where s: "s = (r, c)" by (cases s)
  with Cons.prems have r: "0 \<le> r" "r < 8" by auto
  from cellAt_rows [OF assms(1) r] obtain v where
    v: "cellAt b r c = Inr v" and k: "v = None \<or> (\<exists>cells \<in> set b. v \<in> set cells)" by blast
  from k have "\<not> isKingOf clr v"
  proof
    assume "v = None" then show ?thesis by (simp add: isKingOf_def)
  next
    assume "\<exists>cells \<in> set b. v \<in> set cells"
    then show ?thesis using noKing_cell [OF assms(2)] by blast
  qed
  with v s Cons show ?case by (simp add: bindE_def)
qed

lemma squares_rows: "\<forall>s \<in> set squares. 0 \<le> fst s \<and> fst s < 8"
  by (auto simp: squares_def)

lemma distinct_count_le1: "distinct xs \<Longrightarrow> count_list xs x \<le> 1"
  by (induction xs) (auto simp: count_list_0_iff)

lemma forEachE_stepTo:
  "forEachE (stepTo b piece r c) init steps = Inr ms \<Longrightarrow>
     set ms \<subseteq> set init \<union> (\<lambda>d. \<lparr>row = r + fst d, col = c + snd d\<rparr>) ` set steps"
proof (induction steps arbitrary: init)
  case Nil
  then show ?case by simp
next
  case (Cons d steps)
  from Cons.prems obtain mid where
    s: "stepTo b piece r c init d = Inr mid" and
    f: "forEachE (stepTo b piece r c) mid steps = Inr ms"
    by (auto simp: bindE_Inr)
  from s have "set mid \<subseteq> set init \<union> {\<lparr>row = r + fst d, col = c + snd d\<rparr>}"
    by (auto simp: stepTo_def Let_def bindE_Inr split: if_splits option.splits)
  with Cons.IH [OF f] show ?case by auto
qed

lemma kingSteps_cols: "d \<in> set kingSteps \<Longrightarrow> snd d \<in> {-1, 0, 1}"
  by (auto simp: kingSteps_def)

lemma castlingMoves_Inr:
  assumes "castlingMoves b piece r False moves = Inr ms" and "\<not> hasMoved piece"
  shows "ms = moves
           @ (if unmovedRookAt b r 7 \<and> cellAt b r 5 = Inr None \<and> cellAt b r 6 = Inr None
              then [\<lparr>row = r, col = 6\<rparr>] else [])
           @ (if unmovedRookAt b r 0 \<and> cellAt b r 1 = Inr None \<and> cellAt b r 2 = Inr None
                 \<and> cellAt b r 3 = Inr None
              then [\<lparr>row = r, col = 2\<rparr>] else [])"
proof -
  from assms obtain rookK f g rookQ b1 c1 d1 where
    k: "cellAt b r 7 = Inr rookK" "cellAt b r 5 = Inr f" "cellAt b r 6 = Inr g" and
    q: "cellAt b r 0 = Inr rookQ" "cellAt b r 1 = Inr b1" "cellAt b r 2 = Inr c1"
       "cellAt b r 3 = Inr d1" and
    m: "(let mk = (if isUnmovedRook rookK \<and> f = None \<and> g = None
                    then moves @ [\<lparr>row = r, col = 6\<rparr>] else moves)
         in Inr (if isUnmovedRook rookQ \<and> b1 = None \<and> c1 = None \<and> d1 = None
                 then mk @ [\<lparr>row = r, col = 2\<rparr>] else mk)) = (Inr ms :: error + Position list)"
    by (auto simp: castlingMoves_def bindE_Inr split del: if_split)
  have rk: "unmovedRookAt b r 7 = isUnmovedRook rookK"
    by (simp add: unmovedRookAt_def isUnmovedRook_def k)
  have rq: "unmovedRookAt b r 0 = isUnmovedRook rookQ"
    by (simp add: unmovedRookAt_def isUnmovedRook_def q)
  from m show ?thesis
    unfolding rk rq by (auto simp: k q Let_def split: if_splits)
qed

lemma emptyBetween_king_side:
  "emptyBetween b r 4 7 \<longleftrightarrow> cellAt b r 5 = Inr None \<and> cellAt b r 6 = Inr None"
  by (simp add: emptyBetween_def upto_rec1)

lemma emptyBetween_queen_side:
  "emptyBetween b r 0 4 \<longleftrightarrow>
     cellAt b r 1 = Inr None \<and> cellAt b r 2 = Inr None \<and> cellAt b r 3 = Inr None"
  by (simp add: emptyBetween_def upto_rec1)

lemma file_chars:
  "char_of (97::int) = CHR ''a''" "char_of (98::int) = CHR ''b''" "char_of (99::int) = CHR ''c''"
  "char_of (100::int) = CHR ''d''" "char_of (101::int) = CHR ''e''" "char_of (102::int) = CHR ''f''"
  "char_of (103::int) = CHR ''g''" "char_of (104::int) = CHR ''h''"
  by (simp_all add: char_of_def)

lemma rank_chars:
  "char_of (56::int) = CHR ''8''" "char_of (55::int) = CHR ''7''" "char_of (54::int) = CHR ''6''"
  "char_of (53::int) = CHR ''5''" "char_of (52::int) = CHR ''4''" "char_of (51::int) = CHR ''3''"
  "char_of (50::int) = CHR ''2''" "char_of (49::int) = CHR ''1''"
  by (simp_all add: char_of_def)

lemma in_range_cases: "0 \<le> (c::int) \<Longrightarrow> c < 8 \<Longrightarrow> c \<in> {0, 1, 2, 3, 4, 5, 6, 7}"
  by auto

lemma cols_fileLetter:
  assumes "0 \<le> c" and "c < 8"
  shows "jsIndex [''a'', ''b'', ''c'', ''d'', ''e'', ''f'', ''g'', ''h''] c = Some [fileLetter c]"
proof -
  from in_range_cases [OF assms] show ?thesis
    by (auto simp: jsIndex_def fileLetter_def file_chars)
qed

lemma rows_rankDigit:
  assumes "0 \<le> r" and "r < 8"
  shows "jsIndex [''8'', ''7'', ''6'', ''5'', ''4'', ''3'', ''2'', ''1''] r = Some [rankDigit r]"
proof -
  from in_range_cases [OF assms] show ?thesis
    by (auto simp: jsIndex_def rankDigit_def rank_chars)
qed

lemma pieceLetter_archetype: "pieceLetter t = archetypeLetter t"
  by (cases t) (simp_all add: pieceLetter_def)

lemma executeMove_Inr:
  assumes "executeMove prev fromPos toPos promo = Inr st"
  shows "\<exists>newBoard piece finalCaptured castling enPassant check moves.
          applyMove (board prev) fromPos toPos promo
            = Inr (newBoard, piece, finalCaptured, castling, enPassant)
        \<and> isKingInCheck newBoard (if currentPlayer prev = white then black else white) = Inr check
        \<and> getAllLegalMoves newBoard (if currentPlayer prev = white then black else white)
             (Some (probeMove fromPos toPos piece finalCaptured)) = Inr moves
        \<and> board st = newBoard
        \<and> currentPlayer st = (if currentPlayer prev = white then black else white)
        \<and> status st = (if check \<and> moves = [] then CHECKMATE
                        else if \<not> check \<and> moves = [] then STALEMATE else PLAYING)
        \<and> winner st = (if check \<and> moves = [] then Some (Side (currentPlayer prev))
                        else if \<not> check \<and> moves = [] then Some draw else None)
        \<and> (\<exists>mv. lastMove st = Some mv \<and> movePiece mv = piece \<and> moveCaptured mv = finalCaptured)"
proof -
  let ?next = "if currentPlayer prev = white then black else white"
  from assms obtain res where
    a: "applyMove (board prev) fromPos toPos promo = Inr res" 
    by (auto simp: executeMove_def bindE_Inr)
  obtain newBoard piece finalCaptured castling enPassant where
    r: "res = (newBoard, piece, finalCaptured, castling, enPassant)"
    by (cases res) auto
  from assms a r obtain check where
    c: "isKingInCheck newBoard ?next = Inr check"
    by (auto simp: executeMove_def bindE_Inr Let_def split del: if_split)
  from assms a r c obtain moves where
    g: "getAllLegalMoves newBoard ?next (Some (probeMove fromPos toPos piece finalCaptured))
          = Inr moves"
    by (auto simp: executeMove_def bindE_Inr Let_def split del: if_split)
  from assms a r c g have
    "board st = newBoard" "currentPlayer st = ?next"
    "status st = (if check \<and> moves = [] then CHECKMATE
                        else if \<not> check \<and> moves = [] then STALEMATE else PLAYING)"
    "winner st = (if check \<and> moves = [] then Some (Side (currentPlayer prev))
                        else if \<not> check \<and> moves = [] then Some draw else None)"
    "\<exists>mv. lastMove st = Some mv \<and> movePiece mv = piece \<and> moveCaptured mv = finalCaptured"
    by (auto simp: executeMove_def bindE_def Let_def)
  with a r c g show ?thesis by blast
qed

section \<open>The generator and check detection return on a board\<close>

lemma cellAt_returns:
  assumes "length b = 8" and "isWithinBoard r c"
  shows "\<exists>v. cellAt b r c = Inr v"
  using cellAt_rows [of b r c] assms by (auto simp: isWithinBoard_def)

lemma stepTo_returns:
  assumes "length b = 8"
  shows "\<exists>ms. stepTo b piece r c init d = Inr ms \<and>
              set ms \<subseteq> set init \<union> {m. onBoard m}"
proof (cases "isWithinBoard (r + fst d) (c + snd d)")
  case True
  from cellAt_returns [OF assms True] obtain v where
    "cellAt b (r + fst d) (c + snd d) = Inr v" by blast
  with True show ?thesis
    by (cases v) (auto simp: stepTo_def Let_def bindE_def onBoard_def)
next
  case False
  then show ?thesis by (simp add: stepTo_def Let_def)
qed

lemma forEachE_stepTo_returns:
  assumes "length b = 8"
  shows "\<exists>ms. forEachE (stepTo b piece r c) init steps = Inr ms \<and>
              set ms \<subseteq> set init \<union> {m. onBoard m}"
proof (induction steps arbitrary: init)
  case Nil
  then show ?case by simp
next
  case (Cons d steps)
  from stepTo_returns [OF assms, of piece r c init d] obtain mid where
    s: "stepTo b piece r c init d = Inr mid" and m: "set mid \<subseteq> set init \<union> {m. onBoard m}"
    by blast
  from Cons.IH [of mid] obtain ms where
    f: "forEachE (stepTo b piece r c) mid steps = Inr ms"
    and n: "set ms \<subseteq> set mid \<union> {m. onBoard m}" by blast
  from s f have "forEachE (stepTo b piece r c) init (d # steps) = Inr ms"
    by (simp add: bindE_def)
  with m n show ?case by blast
qed

lemma ray_returns:
  assumes "length b = 8" and "dr \<noteq> 0 \<or> dc \<noteq> 0"
  shows "\<exists>ms. ray b piece dr dc nr nc init = Inr ms \<and> set ms \<subseteq> set init \<union> {m. onBoard m}"
  using assms
proof (induction b piece dr dc nr nc init rule: ray.induct)
  case (1 b piece dr dc nr nc moves)
  show ?case
  proof (cases "isWithinBoard nr nc")
    case False
    then show ?thesis by (subst ray.simps) simp
  next
    case True
    from cellAt_returns [OF "1.prems"(1) True] obtain v where v: "cellAt b nr nc = Inr v" by blast
    show ?thesis
    proof (cases v)
      case None
      from "1.prems"(2) have nz: "\<not> (dr = 0 \<and> dc = 0)" by simp
      from "1.IH" [OF True v None nz "1.prems"] obtain ms where
        r: "ray b piece dr dc (nr + dr) (nc + dc) (moves @ [\<lparr>row = nr, col = nc\<rparr>]) = Inr ms"
        and s: "set ms \<subseteq> set (moves @ [\<lparr>row = nr, col = nc\<rparr>]) \<union> {m. onBoard m}"
        by blast
      from True v None nz r have "ray b piece dr dc nr nc moves = Inr ms"
        by (subst ray.simps) simp
      moreover from s True have "set ms \<subseteq> set moves \<union> {m. onBoard m}"
        by (auto simp: onBoard_def)
      ultimately show ?thesis by blast
    next
      case (Some t)
      with True v show ?thesis
        by (subst ray.simps) (auto simp: onBoard_def)
    qed
  qed
qed

lemma directions_nonzero: "d \<in> set (directions t) \<Longrightarrow> fst d \<noteq> 0 \<or> snd d \<noteq> 0"
  by (auto simp: directions_def split: if_splits)

lemma forEachE_ray_returns:
  assumes "length b = 8" and "\<forall>d \<in> set ds. fst d \<noteq> 0 \<or> snd d \<noteq> 0"
  shows "\<exists>ms. forEachE (\<lambda>moves d. ray b piece (fst d) (snd d) (r + fst d) (c + snd d) moves)
                init ds = Inr ms \<and> set ms \<subseteq> set init \<union> {m. onBoard m}"
  using assms(2)
proof (induction ds arbitrary: init)
  case Nil
  then show ?case by simp
next
  case (Cons d ds)
  from Cons.prems have nz: "fst d \<noteq> 0 \<or> snd d \<noteq> 0" by simp
  from ray_returns [OF assms(1) nz, of piece "r + fst d" "c + snd d" init] obtain mid where
    s: "ray b piece (fst d) (snd d) (r + fst d) (c + snd d) init = Inr mid"
    and m: "set mid \<subseteq> set init \<union> {m. onBoard m}" by blast
  from Cons.prems have "\<forall>d \<in> set ds. fst d \<noteq> 0 \<or> snd d \<noteq> 0" by simp
  from Cons.IH [OF this, of mid] obtain ms where
    f: "forEachE (\<lambda>moves d. ray b piece (fst d) (snd d) (r + fst d) (c + snd d) moves)
          mid ds = Inr ms"
    and n: "set ms \<subseteq> set mid \<union> {m. onBoard m}" by blast
  from s f have "forEachE (\<lambda>moves d. ray b piece (fst d) (snd d) (r + fst d) (c + snd d) moves)
          init (d # ds) = Inr ms"
    by (simp add: bindE_def)
  with m n show ?case by blast
qed

lemma addIfEmpty_returns:
  assumes "length b = 8"
  shows "\<exists>ms ok. addIfEmpty b init r c = Inr (ms, ok)"
proof (cases "isWithinBoard r c")
  case True
  from cellAt_returns [OF assms True] obtain v where "cellAt b r c = Inr v" by blast
  with True show ?thesis by (auto simp: addIfEmpty_def bindE_def)
next
  case False
  then show ?thesis by (auto simp: addIfEmpty_def)
qed

lemma addIfEnemy_returns:
  assumes "length b = 8"
  shows "\<exists>ms ok. addIfEnemy b piece init r c = Inr (ms, ok)"
proof (cases "isWithinBoard r c")
  case True
  from cellAt_returns [OF assms True] obtain v where "cellAt b r c = Inr v" by blast
  with True show ?thesis by (cases v) (auto simp: addIfEnemy_def bindE_def)
next
  case False
  then show ?thesis by (auto simp: addIfEnemy_def)
qed

lemma pawnMoves_returns:
  assumes "length b = 8"
  shows "\<exists>ms. pawnMoves b piece r c lm = Inr ms"
proof -
  define dir :: int where "dir = (if color piece = white then -1 else 1)"
  from addIfEmpty_returns [OF assms] obtain m1 ok where
    a1: "addIfEmpty b [] (r + dir) c = Inr (m1, ok)" by blast
  have "\<exists>m2 ok2. (if ok \<and> \<not> hasMoved piece then addIfEmpty b m1 (r + 2 * dir) c
                    else Inr (m1, False)) = Inr (m2, ok2)"
    using addIfEmpty_returns [OF assms, of m1 "r + 2 * dir" c] by auto
  then obtain m2 ok2 where
    a2: "(if ok \<and> \<not> hasMoved piece then addIfEmpty b m1 (r + 2 * dir) c
          else Inr (m1, False)) = Inr (m2, ok2)" by blast
  from addIfEnemy_returns [OF assms] obtain m3 ok3 where
    a3: "addIfEnemy b piece m2 (r + dir) (c - 1) = Inr (m3, ok3)" by blast
  from addIfEnemy_returns [OF assms] obtain m4 ok4 where
    a4: "addIfEnemy b piece m3 (r + dir) (c + 1) = Inr (m4, ok4)" by blast
  show ?thesis
    unfolding pawnMoves_def Let_def dir_def [symmetric]
    by (simp add: a1 a2 a3 a4 bindE_def)
qed

lemma castlingMoves_returns:
  assumes "length b = 8" and "0 \<le> r" and "r < 8"
  shows "\<exists>ms. castlingMoves b piece r ic init = Inr ms \<and>
              set ms \<subseteq> set init \<union> {\<lparr>row = r, col = 6\<rparr>, \<lparr>row = r, col = 2\<rparr>}"
proof -
  have c: "\<And>k. \<exists>v. cellAt b r k = Inr v"
    using cellAt_rows [OF assms] by blast
  from c [of 7] obtain rookK where k7: "cellAt b r 7 = Inr rookK" by blast
  from c [of 5] obtain f where k5: "cellAt b r 5 = Inr f" by blast
  from c [of 6] obtain g where k6: "cellAt b r 6 = Inr g" by blast
  from c [of 0] obtain rookQ where k0: "cellAt b r 0 = Inr rookQ" by blast
  from c [of 1] obtain b1 where k1: "cellAt b r 1 = Inr b1" by blast
  from c [of 2] obtain c1 where k2: "cellAt b r 2 = Inr c1" by blast
  from c [of 3] obtain d1 where k3: "cellAt b r 3 = Inr d1" by blast
  show ?thesis
    by (auto simp: castlingMoves_def k7 k5 k6 k0 k1 k2 k3 bindE_def Let_def)
qed

text \<open>
  On a board of eight rows and for a position in one of them the generator returns.
\<close>

lemma getPieceMoves_returns:
  assumes "length b = 8" and "0 \<le> row p" and "row p < 8"
  shows "\<exists>ms. getPieceMoves b p lm ic = Inr ms"
proof -
  from cellAt_rows [OF assms] obtain v where v: "cellAt b (row p) (col p) = Inr v" by blast
  show ?thesis
  proof (cases v)
    case None
    with v show ?thesis by (simp add: getPieceMoves_def bindE_def)
  next
    case (Some piece)
    from forEachE_stepTo_returns [OF assms(1)] obtain kn where
      kn: "forEachE (stepTo b piece (row p) (col p)) [] kMoves = Inr kn" by blast
    from forEachE_stepTo_returns [OF assms(1)] obtain adj where
      adj: "forEachE (stepTo b piece (row p) (col p)) [] kingSteps = Inr adj" by blast
    from castlingMoves_returns [OF assms] obtain km where
      km: "castlingMoves b piece (row p) ic adj = Inr km" by blast
    from forEachE_ray_returns [OF assms(1), of "directions (ptype piece)"] directions_nonzero
    obtain sl where sl: "slideMoves b piece (row p) (col p) = Inr sl"
      unfolding slideMoves_def by blast
    from pawnMoves_returns [OF assms(1)] obtain pw where
      pw: "pawnMoves b piece (row p) (col p) lm = Inr pw" by blast
    from v Some kn adj km sl pw show ?thesis
      by (cases "ptype piece") (simp_all add: getPieceMoves_def kingMoves_def bindE_def)
  qed
qed

text \<open>
  Every destination of the generator is on the board, unless it is the square the en
  passant rule pushed.
\<close>

lemma pawn_destinations:
  assumes "pawnMoves b piece r c lm = Inr ms" and "m \<in> set ms"
  shows "onBoard m \<or>
         (\<exists>l. lm = Some l \<and> enPassantOffered lm r c \<and>
              m = \<lparr>row = r + (if color piece = white then -1 else 1), col = col (moveTo l)\<rparr>)"
  using assms(2) unfolding pawnMoves_Inr [OF assms(1)]
  by (auto simp: onBoard_def emptyAt_def enemyAt_def split: if_splits option.splits)

lemma getPieceMoves_destinations:
  assumes "length b = 8" and "0 \<le> row p" and "row p < 8"
    and "getPieceMoves b p lm ic = Inr ms" and "m \<in> set ms"
  shows "onBoard m \<or>
         (\<exists>pawn l. cellAt b (row p) (col p) = Inr (Some pawn) \<and> ptype pawn = PAWN \<and>
              lm = Some l \<and> enPassantOffered lm (row p) (col p) \<and>
              m = \<lparr>row = row p + (if color pawn = white then -1 else 1), col = col (moveTo l)\<rparr>)"
proof -
  from assms(4) obtain v where v: "cellAt b (row p) (col p) = Inr v"
    by (auto simp: getPieceMoves_def bindE_Inr)
  show ?thesis
  proof (cases v)
    case None
    with v assms(4,5) show ?thesis by (simp add: getPieceMoves_def bindE_def)
  next
    case (Some piece)
    show ?thesis
    proof (cases "ptype piece")
      case PAWN
      with v Some assms(4) have "pawnMoves b piece (row p) (col p) lm = Inr ms"
        by (simp add: getPieceMoves_pawn)
      from pawn_destinations [OF this assms(5)] v Some PAWN show ?thesis by auto
    next
      case KNIGHT
      with v Some assms(4) have "forEachE (stepTo b piece (row p) (col p)) [] kMoves = Inr ms"
        by (simp add: getPieceMoves_def bindE_def)
      with forEachE_stepTo_returns [OF assms(1), of piece "row p" "col p" "[]" kMoves] assms(5)
      show ?thesis by auto
    next
      case KING
      with v Some assms(4) obtain adj where
        a: "forEachE (stepTo b piece (row p) (col p)) [] kingSteps = Inr adj" and
        c: "castlingMoves b piece (row p) ic adj = Inr ms"
        by (auto simp: getPieceMoves_def kingMoves_def bindE_Inr)
      from forEachE_stepTo_returns [OF assms(1), of piece "row p" "col p" "[]" kingSteps] a
      have "set adj \<subseteq> {m. onBoard m}" by auto
      moreover from castlingMoves_returns [OF assms(1-3), of piece ic adj] c
      have "set ms \<subseteq> set adj \<union> {\<lparr>row = row p, col = 6\<rparr>, \<lparr>row = row p, col = 2\<rparr>}" by auto
      moreover have "onBoard \<lparr>row = row p, col = 6\<rparr>" "onBoard \<lparr>row = row p, col = 2\<rparr>"
        using assms(2,3) by (simp_all add: onBoard_def isWithinBoard_def)
      ultimately show ?thesis using assms(5) by auto
    next
      case ROOK
      with v Some assms(4) have s: "slideMoves b piece (row p) (col p) = Inr ms"
        by (simp add: getPieceMoves_def bindE_def)
      from forEachE_ray_returns [OF assms(1), of "directions (ptype piece)" piece "row p" "col p" "[]"]
        directions_nonzero s assms(5)
      show ?thesis unfolding slideMoves_def by auto
    next
      case BISHOP
      with v Some assms(4) have s: "slideMoves b piece (row p) (col p) = Inr ms"
        by (simp add: getPieceMoves_def bindE_def)
      from forEachE_ray_returns [OF assms(1), of "directions (ptype piece)" piece "row p" "col p" "[]"]
        directions_nonzero s assms(5)
      show ?thesis unfolding slideMoves_def by auto
    next
      case QUEEN
      with v Some assms(4) have s: "slideMoves b piece (row p) (col p) = Inr ms"
        by (simp add: getPieceMoves_def bindE_def)
      from forEachE_ray_returns [OF assms(1), of "directions (ptype piece)" piece "row p" "col p" "[]"]
        directions_nonzero s assms(5)
      show ?thesis unfolding slideMoves_def by auto
    qed
  qed
qed

text \<open>On a board of eight rows check detection returns.\<close>

lemma findKingIn_returns:
  assumes "length b = 8"
  shows "(\<forall>s \<in> set sq. 0 \<le> fst s \<and> fst s < 8) \<Longrightarrow> \<exists>k. findKingIn b clr sq = Inr k"
proof (induction sq)
  case Nil
  then show ?case by simp
next
  case (Cons s sq)
  obtain r c where s: "s = (r, c)" by (cases s)
  with Cons.prems have r: "0 \<le> r" "r < 8" by auto
  from cellAt_rows [OF assms r] obtain v where "cellAt b r c = Inr v" by blast
  with s Cons show ?case by (auto simp: bindE_def)
qed

lemma attackedFrom_returns:
  assumes "length b = 8"
  shows "(\<forall>s \<in> set sq. 0 \<le> fst s \<and> fst s < 8) \<Longrightarrow>
         \<exists>v. attackedFrom b pos clr sq = Inr v"
proof (induction sq)
  case Nil
  have "attackedFrom b pos clr [] = Inr False" by simp
  then show ?case by blast
next
  case (Cons s sq)
  obtain r c where s: "s = (r, c)" by (cases s)
  with Cons.prems have r: "0 \<le> r" "r < 8" by auto
  from cellAt_rows [OF assms r] obtain v where v: "cellAt b r c = Inr v" by blast
  from getPieceMoves_returns [OF assms, of "\<lparr>row = r, col = c\<rparr>" None True] r obtain ms where
    g: "getPieceMoves b \<lparr>row = r, col = c\<rparr> None True = Inr ms" by auto
  from Cons obtain w where w: "attackedFrom b pos clr sq = Inr w" by auto
  have "attackedFrom b pos clr ((r, c) # sq) = Inr w
        \<or> attackedFrom b pos clr ((r, c) # sq) = Inr True"
    by (cases v) (auto simp: v g w bindE_def)
  then show ?case unfolding s by blast
qed

lemma isKingInCheck_returns:
  assumes "length b = 8"
  shows "\<exists>v. isKingInCheck b clr = Inr v"
proof -
  from findKingIn_returns [OF assms squares_rows] obtain k where
    k: "findKing b clr = Inr k" unfolding findKing_def by blast
  from attackedFrom_returns [OF assms squares_rows] obtain v where
    a: "isSquareAttacked b k (if clr = white then black else white) = Inr v"
    unfolding isSquareAttacked_def by blast
  show ?thesis
  proof (cases "row k = -1")
    case True
    with k have "isKingInCheck b clr = Inr False" by (simp add: isKingInCheck_def bindE_def)
    then show ?thesis by blast
  next
    case False
    with k a have "isKingInCheck b clr = Inr v" by (simp add: isKingInCheck_def bindE_def)
    then show ?thesis by blast
  qed
qed

section \<open>Properties of the legal-move filter\<close>

text \<open>
  C1. For a board \<open>b\<close> and a position \<open>p\<close> that holds a piece, every destination \<open>m\<close>
  that \<open>getLegalMoves\<close> returns is one whose simulated board (the copy with the piece on
  \<open>m\<close>, the source square cleared and, for a pawn that changes column onto an empty
  square, the pawn behind the destination removed) has the mover's king not in check.
\<close>

theorem legal_move_keeps_own_king_safe:
  assumes "getLegalMoves b p lm = Inr ms"
    and "cellAt b (row p) (col p) = Inr (Some piece)"
    and "m \<in> set ms"
  shows "\<exists>sim. simulateMove b p piece m = Inr sim \<and> isKingInCheck sim (color piece) = Inr False"
proof -
  from getLegalMoves_Some [OF assms(1,2)] obtain raw where
    "filterE (keepMove b p piece) raw = Inr ms" by blast
  from filterE_Inr [OF this] assms(3) have "keepMove b p piece m = Inr True" by simp
  from keepMove_True [OF this] show ?thesis by blast
qed

theorem legal_move_keeps_own_king_safe_witness:
  "getLegalMoves kingInCheckBoard \<lparr>row = 7, col = 4\<rparr> None
     = Inr [\<lparr>row = 6, col = 3\<rparr>, \<lparr>row = 6, col = 5\<rparr>, \<lparr>row = 7, col = 3\<rparr>, \<lparr>row = 7, col = 5\<rparr>]
   \<and> isKingInCheck kingInCheckBoard white = Inr True
   \<and> (\<exists>sim. simulateMove kingInCheckBoard \<lparr>row = 7, col = 4\<rparr>
               \<lparr>pieceId = ''x'', ptype = KING, color = white, hasMoved = True\<rparr>
               \<lparr>row = 6, col = 3\<rparr> = Inr sim
            \<and> isKingInCheck sim white = Inr False)"
proof -
  let ?p = "\<lparr>row = 7, col = 4\<rparr>"
  let ?k = "\<lparr>pieceId = ''x'', ptype = KING, color = white, hasMoved = True\<rparr>"
  have e: "getLegalMoves kingInCheckBoard ?p None
     = Inr [\<lparr>row = 6, col = 3\<rparr>, \<lparr>row = 6, col = 5\<rparr>, \<lparr>row = 7, col = 3\<rparr>, \<lparr>row = 7, col = 5\<rparr>]"
    by code_simp
  have c: "cellAt kingInCheckBoard (row ?p) (col ?p) = Inr (Some ?k)"
    by code_simp
  have k: "isKingInCheck kingInCheckBoard white = Inr True"
    by code_simp
  have m: "\<lparr>row = 6, col = 3\<rparr>
             \<in> set [\<lparr>row = 6, col = 3\<rparr>, \<lparr>row = 6, col = 5\<rparr>, \<lparr>row = 7, col = 3\<rparr>, \<lparr>row = 7, col = 5\<rparr>]"
    by simp
  from legal_move_keeps_own_king_safe [OF e c m] e k show ?thesis by simp
qed

text \<open>
  C3. Every position of \<open>getLegalMoves(b, p, lastMove)\<close> is in
  \<open>getPieceMoves(b, p, lastMove, false)\<close>, and the legal moves stand in the order of the
  generator: they are a subsequence of its output.
\<close>

theorem legal_moves_subseq_piece_moves:
  assumes "getLegalMoves b p lm = Inr ms"
  shows "\<exists>raw. getPieceMoves b p lm False = Inr raw \<and> subseq ms raw \<and> set ms \<subseteq> set raw"
proof -
  from assms obtain cell where c: "cellAt b (row p) (col p) = Inr cell"
    by (auto simp: getLegalMoves_def bindE_Inr)
  show ?thesis
  proof (cases cell)
    case None
    with c assms show ?thesis
      by (simp add: getLegalMoves_def getPieceMoves_def bindE_def)
  next
    case (Some piece)
    with c getLegalMoves_Some [OF assms] obtain raw where
      r: "getPieceMoves b p lm False = Inr raw" and f: "filterE (keepMove b p piece) raw = Inr ms"
      by blast
    from filterE_Inr [OF f] have "ms = filter (\<lambda>x. keepMove b p piece x = Inr True) raw" by simp
    then have "subseq ms raw" "set ms \<subseteq> set raw" by auto
    with r show ?thesis by blast
  qed
qed

theorem legal_moves_subseq_piece_moves_witness:
  "getLegalMoves kingInCheckBoard \<lparr>row = 7, col = 4\<rparr> None
     = Inr [\<lparr>row = 6, col = 3\<rparr>, \<lparr>row = 6, col = 5\<rparr>, \<lparr>row = 7, col = 3\<rparr>, \<lparr>row = 7, col = 5\<rparr>]
   \<and> getPieceMoves kingInCheckBoard \<lparr>row = 7, col = 4\<rparr> None False
     = Inr [\<lparr>row = 6, col = 3\<rparr>, \<lparr>row = 6, col = 4\<rparr>, \<lparr>row = 6, col = 5\<rparr>, \<lparr>row = 7, col = 3\<rparr>,
            \<lparr>row = 7, col = 5\<rparr>]
   \<and> subseq [\<lparr>row = 6, col = 3\<rparr>, \<lparr>row = 6, col = 5\<rparr>, \<lparr>row = 7, col = 3\<rparr>, \<lparr>row = 7, col = 5\<rparr>]
        [\<lparr>row = 6, col = 3\<rparr>, \<lparr>row = 6, col = 4\<rparr>, \<lparr>row = 6, col = 5\<rparr>, \<lparr>row = 7, col = 3\<rparr>,
         \<lparr>row = 7, col = 5\<rparr>]"
proof -
  have e: "getLegalMoves kingInCheckBoard \<lparr>row = 7, col = 4\<rparr> None
     = Inr [\<lparr>row = 6, col = 3\<rparr>, \<lparr>row = 6, col = 5\<rparr>, \<lparr>row = 7, col = 3\<rparr>, \<lparr>row = 7, col = 5\<rparr>]"
    by code_simp
  have r: "getPieceMoves kingInCheckBoard \<lparr>row = 7, col = 4\<rparr> None False
     = Inr [\<lparr>row = 6, col = 3\<rparr>, \<lparr>row = 6, col = 4\<rparr>, \<lparr>row = 6, col = 5\<rparr>, \<lparr>row = 7, col = 3\<rparr>,
            \<lparr>row = 7, col = 5\<rparr>]"
    by code_simp
  from legal_moves_subseq_piece_moves [OF e] e r show ?thesis by simp
qed

text \<open>
  C4. A pseudo-legal destination of a king that is exactly two columns from the king's
  square is not among the legal moves when the king is in check on the board as it
  stands, or when the king is in check on the copy that has it on the square in
  between (source square cleared, rook in place); the landing square is covered by the
  simulation every candidate goes through, which puts the king on the destination.
\<close>

theorem castling_candidate_excluded:
  assumes "getLegalMoves b p lm = Inr ms"
    and "cellAt b (row p) (col p) = Inr (Some king)"
    and "ptype king = KING"
    and "getPieceMoves b p lm False = Inr raw"
    and "m \<in> set raw"
    and "\<bar>col m - col p\<bar> = 2"
    and "isKingInCheck b (color king) = Inr True
         \<or> (\<exists>sb. stepBoard b p king m = Inr sb \<and> isKingInCheck sb (color king) = Inr True)
         \<or> (\<exists>sim. simulateMove b p king m = Inr sim \<and> isKingInCheck sim (color king) = Inr True)"
  shows "m \<notin> set ms"
proof
  assume "m \<in> set ms"
  from getLegalMoves_Some [OF assms(1,2)] obtain raw' where
    "filterE (keepMove b p king) raw' = Inr ms" by blast
  from filterE_Inr [OF this] \<open>m \<in> set ms\<close> have "keepMove b p king m = Inr True" by simp
  from keepMove_True [OF this] assms(3,6,7) show False by auto
qed

theorem castling_candidate_excluded_witness:
  "getPieceMoves castleThroughCheckBoard \<lparr>row = 7, col = 4\<rparr> None False
     = Inr [\<lparr>row = 6, col = 3\<rparr>, \<lparr>row = 6, col = 4\<rparr>, \<lparr>row = 6, col = 5\<rparr>, \<lparr>row = 7, col = 3\<rparr>,
            \<lparr>row = 7, col = 5\<rparr>, \<lparr>row = 7, col = 6\<rparr>]
   \<and> isKingInCheck castleThroughCheckBoard white = Inr False
   \<and> getLegalMoves castleThroughCheckBoard \<lparr>row = 7, col = 4\<rparr> None
     = Inr [\<lparr>row = 6, col = 3\<rparr>, \<lparr>row = 6, col = 4\<rparr>, \<lparr>row = 7, col = 3\<rparr>]
   \<and> \<lparr>row = 7, col = 6\<rparr> \<notin> set [\<lparr>row = 6, col = 3\<rparr>, \<lparr>row = 6, col = 4\<rparr>, \<lparr>row = 7, col = 3\<rparr>]"
proof -
  let ?p = "\<lparr>row = 7, col = 4\<rparr>"
  let ?m = "\<lparr>row = 7, col = 6\<rparr>"
  let ?k = "\<lparr>pieceId = ''x'', ptype = KING, color = white, hasMoved = False\<rparr>"
  have e: "getLegalMoves castleThroughCheckBoard ?p None
     = Inr [\<lparr>row = 6, col = 3\<rparr>, \<lparr>row = 6, col = 4\<rparr>, \<lparr>row = 7, col = 3\<rparr>]"
    by code_simp
  have c: "cellAt castleThroughCheckBoard (row ?p) (col ?p) = Inr (Some ?k)"
    by code_simp
  have t: "ptype ?k = KING" by simp
  have r: "getPieceMoves castleThroughCheckBoard ?p None False
     = Inr [\<lparr>row = 6, col = 3\<rparr>, \<lparr>row = 6, col = 4\<rparr>, \<lparr>row = 6, col = 5\<rparr>, \<lparr>row = 7, col = 3\<rparr>,
            \<lparr>row = 7, col = 5\<rparr>, ?m]"
    by code_simp
  have i: "?m \<in> set [\<lparr>row = 6, col = 3\<rparr>, \<lparr>row = 6, col = 4\<rparr>, \<lparr>row = 6, col = 5\<rparr>,
                      \<lparr>row = 7, col = 3\<rparr>, \<lparr>row = 7, col = 5\<rparr>, ?m]"
    by simp
  have d: "\<bar>col ?m - col ?p\<bar> = 2" by simp
  have n: "isKingInCheck castleThroughCheckBoard white = Inr False" by code_simp
  have "case stepBoard castleThroughCheckBoard ?p ?k ?m of
          Inl _ \<Rightarrow> False | Inr sb \<Rightarrow> isKingInCheck sb white = Inr True"
    by code_simp
  then have s: "\<exists>sb. stepBoard castleThroughCheckBoard ?p ?k ?m = Inr sb
                  \<and> isKingInCheck sb (color ?k) = Inr True"
    by (simp split: sum.splits)
  then have h: "isKingInCheck castleThroughCheckBoard (color ?k) = Inr True
         \<or> (\<exists>sb. stepBoard castleThroughCheckBoard ?p ?k ?m = Inr sb
                  \<and> isKingInCheck sb (color ?k) = Inr True)
         \<or> (\<exists>sim. simulateMove castleThroughCheckBoard ?p ?k ?m = Inr sim
                  \<and> isKingInCheck sim (color ?k) = Inr True)"
    by blast
  from castling_candidate_excluded [OF e c t r i d h] e r n show ?thesis by simp
qed

section \<open>Properties of the generator and of check detection\<close>

text \<open>
  C6. A pawn at \<open>(row, col)\<close> is offered the two-square advance \<open>(row + 2 dir, col)\<close>
  exactly when the square one step ahead is on the board and empty, the square two
  steps ahead is on the board and empty, and the pawn's \<open>hasMoved\<close> flag is false; the
  rank the pawn stands on plays no part.
\<close>

theorem pawn_double_step_iff:
  assumes "cellAt b (row p) (col p) = Inr (Some pawn)"
    and "ptype pawn = PAWN"
    and "getPieceMoves b p lm ic = Inr ms"
    and "dir = (if color pawn = white then -1 else 1)"
  shows "\<lparr>row = row p + 2 * dir, col = col p\<rparr> \<in> set ms \<longleftrightarrow>
           isWithinBoard (row p + dir) (col p) \<and> cellAt b (row p + dir) (col p) = Inr None \<and>
           isWithinBoard (row p + 2 * dir) (col p) \<and> cellAt b (row p + 2 * dir) (col p) = Inr None \<and>
           \<not> hasMoved pawn"
proof -
  from assms(1-3) have "pawnMoves b pawn (row p) (col p) lm = Inr ms"
    by (simp add: getPieceMoves_pawn)
  from pawnMoves_Inr [OF this] show ?thesis
    unfolding assms(4) by (auto simp: emptyAt_def split: option.splits if_splits)
qed

theorem pawn_double_step_iff_witness:
  "getPieceMoves pawnStartBoard \<lparr>row = 6, col = 4\<rparr> None False
     = Inr [\<lparr>row = 5, col = 4\<rparr>, \<lparr>row = 4, col = 4\<rparr>]
   \<and> isWithinBoard 5 4 \<and> cellAt pawnStartBoard 5 4 = Inr None
   \<and> isWithinBoard 4 4 \<and> cellAt pawnStartBoard 4 4 = Inr None"
proof -
  let ?p = "\<lparr>row = 6, col = 4\<rparr>"
  let ?w = "\<lparr>pieceId = ''x'', ptype = PAWN, color = white, hasMoved = False\<rparr>"
  have c: "cellAt pawnStartBoard (row ?p) (col ?p) = Inr (Some ?w)" by code_simp
  have t: "ptype ?w = PAWN" by simp
  have g: "getPieceMoves pawnStartBoard ?p None False
             = Inr [\<lparr>row = 5, col = 4\<rparr>, \<lparr>row = 4, col = 4\<rparr>]" by code_simp
  have d: "(-1::int) = (if color ?w = white then -1 else 1)" by simp
  from pawn_double_step_iff [OF c t g d] g show ?thesis by simp
qed

text \<open>
  C8. On a board with no king of colour \<open>c\<close>, \<open>findKing\<close> returns the position
  \<open>(-1, -1)\<close> and \<open>isKingInCheck(board, c)\<close> returns false.
\<close>

theorem no_king_not_in_check:
  assumes "wfBoard b" and "noKing b clr"
  shows "findKing b clr = Inr \<lparr>row = -1, col = -1\<rparr> \<and> isKingInCheck b clr = Inr False"
proof -
  from assms(1) have l: "length b = 8" by (simp add: wfBoard_def)
  have f: "findKing b clr = Inr \<lparr>row = -1, col = -1\<rparr>"
    unfolding findKing_def by (rule findKingIn_noKing [OF l assms(2) squares_rows])
  then show ?thesis by (simp add: isKingInCheck_def bindE_def)
qed

theorem no_king_not_in_check_witness:
  "wfBoard kingInCheckBoard \<and> noKing kingInCheckBoard black
   \<and> findKing kingInCheckBoard black = Inr \<lparr>row = -1, col = -1\<rparr>
   \<and> isKingInCheck kingInCheckBoard black = Inr False"
proof -
  have w: "wfBoard kingInCheckBoard" by code_simp
  have n: "noKing kingInCheckBoard black" by code_simp
  from no_king_not_in_check [OF w n] w n show ?thesis by simp
qed

text \<open>
  C10. With the last move an enemy pawn's double step that ends beside the pawn, and an
  enemy piece on the square diagonally ahead in that column, \<open>getPieceMoves\<close> returns
  that square twice, once from the capture rule and once from the en passant rule,
  which does not look at the square: the list of destinations has a duplicate.
\<close>

theorem en_passant_square_pushed_twice:
  assumes "cellAt b (row p) (col p) = Inr (Some pawn)"
    and "ptype pawn = PAWN"
    and "dir = (if color pawn = white then -1 else 1)"
    and "ptype (movePiece l) = PAWN"
    and "\<bar>row (moveFrom l) - row (moveTo l)\<bar> = 2"
    and "row (moveTo l) = row p"
    and "\<bar>col (moveTo l) - col p\<bar> = 1"
    and "isWithinBoard (row p + dir) (col (moveTo l))"
    and "cellAt b (row p + dir) (col (moveTo l)) = Inr (Some t)"
    and "color t \<noteq> color pawn"
    and "getPieceMoves b p (Some l) ic = Inr ms"
  shows "count_list ms \<lparr>row = row p + dir, col = col (moveTo l)\<rparr> = 2 \<and> \<not> distinct ms"
proof -
  let ?d = "\<lparr>row = row p + dir, col = col (moveTo l)\<rparr>"
  from assms(1,2,11) have "pawnMoves b pawn (row p) (col p) (Some l) = Inr ms"
    by (simp add: getPieceMoves_pawn)
  note ms = pawnMoves_Inr [OF this]
  have ep: "enPassantOffered (Some l) (row p) (col p)"
    using assms(4-7) by (simp add: enPassantOffered_def)
  have en: "enemyAt b pawn (row p + dir) (col (moveTo l))"
    using assms(8-10) by (simp add: enemyAt_def)
  from assms(7) have "col (moveTo l) = col p - 1 \<or> col (moveTo l) = col p + 1" by arith
  then have c: "count_list ms ?d = 2"
  proof
    assume e: "col (moveTo l) = col p - 1"
    show ?thesis
      by (subst ms) (use ep en e in \<open>auto simp: assms(3)\<close>)
  next
    assume e: "col (moveTo l) = col p + 1"
    show ?thesis
      by (subst ms) (use ep en e in \<open>auto simp: assms(3)\<close>)
  qed
  have "\<not> distinct ms"
  proof
    assume "distinct ms"
    then have "count_list ms ?d \<le> 1"
      by (rule distinct_count_le1)
    with c show False by simp
  qed
  with c show ?thesis by simp
qed

theorem en_passant_square_pushed_twice_witness:
  "getPieceMoves enPassantBoard \<lparr>row = 3, col = 3\<rparr> (Some enPassantLast) False
     = Inr [\<lparr>row = 2, col = 3\<rparr>, \<lparr>row = 2, col = 4\<rparr>, \<lparr>row = 2, col = 4\<rparr>]
   \<and> \<not> distinct [\<lparr>row = 2, col = 3\<rparr>, \<lparr>row = 2, col = 4\<rparr>, \<lparr>row = 2, col = 4\<rparr>]"
proof -
  let ?p = "\<lparr>row = 3, col = 3\<rparr>"
  let ?w = "\<lparr>pieceId = ''x'', ptype = PAWN, color = white, hasMoved = True\<rparr>"
  let ?n = "\<lparr>pieceId = ''x'', ptype = KNIGHT, color = black, hasMoved = True\<rparr>"
  have a1: "cellAt enPassantBoard (row ?p) (col ?p) = Inr (Some ?w)" by code_simp
  have a2: "ptype ?w = PAWN" by simp
  have a3: "(-1::int) = (if color ?w = white then -1 else 1)" by simp
  have a4: "ptype (movePiece enPassantLast) = PAWN" by (simp add: enPassantLast_def)
  have a5: "\<bar>row (moveFrom enPassantLast) - row (moveTo enPassantLast)\<bar> = 2"
    by (simp add: enPassantLast_def)
  have a6: "row (moveTo enPassantLast) = row ?p" by (simp add: enPassantLast_def)
  have a7: "\<bar>col (moveTo enPassantLast) - col ?p\<bar> = 1" by (simp add: enPassantLast_def)
  have a8: "isWithinBoard (row ?p + -1) (col (moveTo enPassantLast))"
    by (simp add: enPassantLast_def isWithinBoard_def)
  have a9: "cellAt enPassantBoard (row ?p + -1) (col (moveTo enPassantLast)) = Inr (Some ?n)"
    by code_simp
  have a10: "color ?n \<noteq> color ?w" by simp
  have a11: "getPieceMoves enPassantBoard ?p (Some enPassantLast) False
     = Inr [\<lparr>row = 2, col = 3\<rparr>, \<lparr>row = 2, col = 4\<rparr>, \<lparr>row = 2, col = 4\<rparr>]" by code_simp
  from en_passant_square_pushed_twice [OF a1 a2 a3 a4 a5 a6 a7 a8 a9 a10 a11] a11
  show ?thesis by simp
qed

section \<open>Castling in the generator\<close>

text \<open>
  C5 (as amended). With \<open>ignoreCastling\<close> false and an unmoved king on column 4 of its
  row, \<open>getPieceMoves\<close> offers \<open>(row, 6)\<close> exactly when \<open>(row, 7)\<close> holds an unmoved
  rook and the squares strictly between king and rook are empty, and \<open>(row, 2)\<close>
  exactly when \<open>(row, 0)\<close> holds an unmoved rook and the squares strictly between are
  empty. Nothing about attacked squares enters the condition. The squares the source
  tests are the fixed columns 5, 6 and 1, 2, 3, which are the squares in between only
  for a king on column 4.
\<close>

theorem castling_generated_iff:
  assumes "cellAt b (row p) (col p) = Inr (Some king)"
    and "ptype king = KING"
    and "\<not> hasMoved king"
    and "col p = 4"
    and "getPieceMoves b p lm False = Inr ms"
  shows "(\<lparr>row = row p, col = 6\<rparr> \<in> set ms \<longleftrightarrow>
            unmovedRookAt b (row p) 7 \<and> emptyBetween b (row p) (col p) 7)
       \<and> (\<lparr>row = row p, col = 2\<rparr> \<in> set ms \<longleftrightarrow>
            unmovedRookAt b (row p) 0 \<and> emptyBetween b (row p) 0 (col p))"
proof -
  from assms(1,2,5) obtain adj where
    a: "forEachE (stepTo b king (row p) (col p)) [] kingSteps = Inr adj" and
    c: "castlingMoves b king (row p) False adj = Inr ms"
    by (auto simp: getPieceMoves_def kingMoves_def bindE_Inr)
  from forEachE_stepTo [OF a] kingSteps_cols assms(4)
  have n: "\<lparr>row = row p, col = 6\<rparr> \<notin> set adj" "\<lparr>row = row p, col = 2\<rparr> \<notin> set adj"
    by fastforce+
  from castlingMoves_Inr [OF c assms(3)] n show ?thesis
    by (auto simp: assms(4) emptyBetween_king_side emptyBetween_queen_side)
qed

theorem castling_generated_iff_witness:
  "getPieceMoves castleThroughCheckBoard \<lparr>row = 7, col = 4\<rparr> None False
     = Inr [\<lparr>row = 6, col = 3\<rparr>, \<lparr>row = 6, col = 4\<rparr>, \<lparr>row = 6, col = 5\<rparr>, \<lparr>row = 7, col = 3\<rparr>,
            \<lparr>row = 7, col = 5\<rparr>, \<lparr>row = 7, col = 6\<rparr>]
   \<and> unmovedRookAt castleThroughCheckBoard 7 7 \<and> emptyBetween castleThroughCheckBoard 7 4 7
   \<and> \<not> unmovedRookAt castleThroughCheckBoard 7 0"
proof -
  let ?p = "\<lparr>row = 7, col = 4\<rparr>"
  let ?k = "\<lparr>pieceId = ''x'', ptype = KING, color = white, hasMoved = False\<rparr>"
  have c: "cellAt castleThroughCheckBoard (row ?p) (col ?p) = Inr (Some ?k)" by code_simp
  have t: "ptype ?k = KING" by simp
  have h: "\<not> hasMoved ?k" by simp
  have f: "col ?p = 4" by simp
  have g: "getPieceMoves castleThroughCheckBoard ?p None False
     = Inr [\<lparr>row = 6, col = 3\<rparr>, \<lparr>row = 6, col = 4\<rparr>, \<lparr>row = 6, col = 5\<rparr>, \<lparr>row = 7, col = 3\<rparr>,
            \<lparr>row = 7, col = 5\<rparr>, \<lparr>row = 7, col = 6\<rparr>]" by code_simp
  have q: "\<not> unmovedRookAt castleThroughCheckBoard 7 0" by code_simp
  from castling_generated_iff [OF c t h f g] g q show ?thesis by simp
qed

text \<open>
  The claim as it was stated, for a king on any column, fails: the unmoved king on d1
  is offered g1 although e1, a square strictly between d1 and the rook on h1, is taken.
\<close>

theorem castling_between_squares_counterexample:
  "cellAt kingOffFileBoard 7 3 = Inr (pc KING white False)
   \<and> getPieceMoves kingOffFileBoard \<lparr>row = 7, col = 3\<rparr> None False
       = Inr [\<lparr>row = 6, col = 2\<rparr>, \<lparr>row = 6, col = 3\<rparr>, \<lparr>row = 6, col = 4\<rparr>, \<lparr>row = 7, col = 2\<rparr>,
              \<lparr>row = 7, col = 6\<rparr>]
   \<and> unmovedRookAt kingOffFileBoard 7 7
   \<and> \<not> emptyBetween kingOffFileBoard 7 3 7"
  by code_simp

text \<open>
  C7. Every destination of \<open>getPieceMoves\<close> should be on the board. The en passant rule
  pushes its square without asking \<open>isWithinBoard\<close>: for a white pawn on row 0 and a last
  move recorded as a pawn's two-row move that ends beside it, the destination has row
  -1, and \<open>getLegalMoves\<close> then stops with a \<open>TypeError\<close> on \<open>simulatedBoard[-1]\<close>.
  Every other rule of the generator keeps to the board (\<open>getPieceMoves_destinations\<close>).
\<close>

theorem en_passant_destination_off_board:
  "cellAt lastRankBoard 0 3 = Inr (pc PAWN white True)
   \<and> getPieceMoves lastRankBoard \<lparr>row = 0, col = 3\<rparr> (Some lastRankLast) False
       = Inr [\<lparr>row = -1, col = 4\<rparr>]
   \<and> isWithinBoard (-1) 4 = False
   \<and> getLegalMoves lastRankBoard \<lparr>row = 0, col = 3\<rparr> (Some lastRankLast) = Inl TypeError"
  by code_simp

section \<open>Notation\<close>

text \<open>
  C9. \<open>getAlgebraicNotation\<close> returns the string of the specification (\<open>notate\<close>):
  \<open>O-O\<close> for a king that goes two columns up and \<open>O-O-O\<close> for two columns down, with
  no suffix whatever the check and mate flags are; for any other move the archetype
  letter, for a capture the origin file letter (pawn only) and \<open>x\<close>, the destination
  file letter and rank digit, and \<open>#\<close> for mate, else \<open>+\<close> for check. The columns and
  the destination row are taken in \<open>[0,8)\<close>, where the letters and digits are defined.
\<close>

theorem notation_as_specified:
  assumes "(ptype piece = KING \<and> \<bar>col fromPos - col toPos\<bar> = 2)
           \<or> (0 \<le> col fromPos \<and> col fromPos < 8 \<and> isWithinBoard (row toPos) (col toPos))"
  shows "getAlgebraicNotation fromPos toPos piece captured check mate
           = notate fromPos toPos piece captured check mate"
proof (cases "ptype piece = KING \<and> \<bar>col fromPos - col toPos\<bar> = 2")
  case True
  then have "col toPos = col fromPos + 2 \<or> col toPos = col fromPos - 2" by arith
  with True show ?thesis
    by (auto simp: getAlgebraicNotation_def notate_def)
next
  case False
  with assms have f: "0 \<le> col fromPos" "col fromPos < 8"
    and t: "0 \<le> col toPos" "col toPos < 8" and r: "0 \<le> row toPos" "row toPos < 8"
    by (simp_all add: isWithinBoard_def)
  have castle: "\<bar>col fromPos - col toPos\<bar> = 2 \<longleftrightarrow>
                  col toPos = col fromPos + 2 \<or> col toPos = col fromPos - 2" by arith
  show ?thesis
    unfolding getAlgebraicNotation_def notate_def Let_def
    by (simp add: cols_fileLetter [OF f] cols_fileLetter [OF t] rows_rankDigit [OF r]
          jsPlus_def jsStr_def pieceLetter_archetype castle)
qed

theorem notation_as_specified_witness:
  "getAlgebraicNotation \<lparr>row = 7, col = 4\<rparr> \<lparr>row = 7, col = 6\<rparr>
     \<lparr>pieceId = ''x'', ptype = KING, color = white, hasMoved = False\<rparr> False True True = ''O-O''
   \<and> getAlgebraicNotation \<lparr>row = 7, col = 4\<rparr> \<lparr>row = 7, col = 2\<rparr>
     \<lparr>pieceId = ''x'', ptype = KING, color = white, hasMoved = False\<rparr> False True False = ''O-O-O''
   \<and> getAlgebraicNotation \<lparr>row = 3, col = 3\<rparr> \<lparr>row = 2, col = 4\<rparr>
     \<lparr>pieceId = ''x'', ptype = PAWN, color = white, hasMoved = True\<rparr> True True False = ''dxe6+''
   \<and> getAlgebraicNotation \<lparr>row = 1, col = 7\<rparr> \<lparr>row = 1, col = 1\<rparr>
     \<lparr>pieceId = ''x'', ptype = QUEEN, color = white, hasMoved = True\<rparr> False True True = ''Qb7#''"
  using
    notation_as_specified [of "\<lparr>pieceId = ''x'', ptype = KING, color = white, hasMoved = False\<rparr>"
      "\<lparr>row = 7, col = 4\<rparr>" "\<lparr>row = 7, col = 6\<rparr>" False True True]
    notation_as_specified [of "\<lparr>pieceId = ''x'', ptype = KING, color = white, hasMoved = False\<rparr>"
      "\<lparr>row = 7, col = 4\<rparr>" "\<lparr>row = 7, col = 2\<rparr>" False True False]
    notation_as_specified [of "\<lparr>pieceId = ''x'', ptype = PAWN, color = white, hasMoved = True\<rparr>"
      "\<lparr>row = 3, col = 3\<rparr>" "\<lparr>row = 2, col = 4\<rparr>" True True False]
    notation_as_specified [of "\<lparr>pieceId = ''x'', ptype = QUEEN, color = white, hasMoved = True\<rparr>"
      "\<lparr>row = 1, col = 7\<rparr>" "\<lparr>row = 1, col = 1\<rparr>" False True True]
  by (simp add: notate_def fileLetter_def rankDigit_def file_chars rank_chars isWithinBoard_def)

section \<open>Status after a committed move\<close>

text \<open>
  C2. After \<open>executeMove\<close> the side to move is the other side. With \<open>check\<close> the result
  of \<open>isKingInCheck\<close> and \<open>moves\<close> the result of \<open>getAllLegalMoves\<close> for that side on the
  new board: no move and check give status checkmate and the side that just moved as
  winner; no move and no check give stalemate and winner draw; otherwise the status is
  playing and there is no winner.
\<close>

theorem executeMove_terminal_status:
  assumes "executeMove prev fromPos toPos promo = Inr st"
  shows "\<exists>check moves mv.
           currentPlayer st = (if currentPlayer prev = white then black else white)
         \<and> lastMove st = Some mv
         \<and> isKingInCheck (board st) (currentPlayer st) = Inr check
         \<and> getAllLegalMoves (board st) (currentPlayer st)
              (Some (probeMove fromPos toPos (movePiece mv) (moveCaptured mv))) = Inr moves
         \<and> (moves = [] \<and> check \<longrightarrow>
                status st = CHECKMATE \<and> winner st = Some (Side (currentPlayer prev)))
         \<and> (moves = [] \<and> \<not> check \<longrightarrow> status st = STALEMATE \<and> winner st = Some draw)
         \<and> (moves \<noteq> [] \<longrightarrow> status st = PLAYING \<and> winner st = None)"
proof -
  from executeMove_Inr [OF assms] obtain newBoard piece finalCaptured castling enPassant
      check moves mv where
    c: "isKingInCheck newBoard (if currentPlayer prev = white then black else white) = Inr check"
    and g: "getAllLegalMoves newBoard (if currentPlayer prev = white then black else white)
             (Some (probeMove fromPos toPos piece finalCaptured)) = Inr moves"
    and b: "board st = newBoard"
    and n: "currentPlayer st = (if currentPlayer prev = white then black else white)"
    and s: "status st = (if check \<and> moves = [] then CHECKMATE
                        else if \<not> check \<and> moves = [] then STALEMATE else PLAYING)"
    and w: "winner st = (if check \<and> moves = [] then Some (Side (currentPlayer prev))
                        else if \<not> check \<and> moves = [] then Some draw else None)"
    and l: "lastMove st = Some mv" "movePiece mv = piece" "moveCaptured mv = finalCaptured"
    by blast
  have "isKingInCheck (board st) (currentPlayer st) = Inr check"
    using c b n by simp
  moreover have "getAllLegalMoves (board st) (currentPlayer st)
              (Some (probeMove fromPos toPos (movePiece mv) (moveCaptured mv))) = Inr moves"
    using g b n l by simp
  moreover have "moves = [] \<and> check \<longrightarrow>
                status st = CHECKMATE \<and> winner st = Some (Side (currentPlayer prev))"
    using s w by simp
  moreover have "moves = [] \<and> \<not> check \<longrightarrow> status st = STALEMATE \<and> winner st = Some draw"
    using s w by simp
  moreover have "moves \<noteq> [] \<longrightarrow> status st = PLAYING \<and> winner st = None"
    using s w by simp
  ultimately show ?thesis using n l(1) by blast
qed

theorem executeMove_terminal_status_witness:
  "\<exists>st. executeMove mateState \<lparr>row = 1, col = 7\<rparr> \<lparr>row = 1, col = 1\<rparr> None = Inr st
       \<and> currentPlayer st = black
       \<and> isKingInCheck (board st) black = Inr True
       \<and> status st = CHECKMATE \<and> winner st = Some (Side white)"
proof -
  have "case executeMove mateState \<lparr>row = 1, col = 7\<rparr> \<lparr>row = 1, col = 1\<rparr> None of
          Inl _ \<Rightarrow> False
        | Inr st \<Rightarrow> isKingInCheck (board st) black = Inr True \<and> status st = CHECKMATE
                     \<and> winner st = Some (Side white)"
    by code_simp
  then obtain st where
    e: "executeMove mateState \<lparr>row = 1, col = 7\<rparr> \<lparr>row = 1, col = 1\<rparr> None = Inr st"
    and k: "isKingInCheck (board st) black = Inr True" "status st = CHECKMATE"
           "winner st = Some (Side white)"
    by (auto split: sum.splits)
  have p: "currentPlayer mateState = white" by (simp add: mateState_def)
  from executeMove_terminal_status [OF e] p have "currentPlayer st = black" by auto
  with e k show ?thesis by blast
qed

end
